theory Spec2Isabelle
  imports Main "HOL-Library.Word"
begin

section \<open>Directory provisioning (root.go, lines 39-49 and 74-78)\<close>

text \<open>
  A path is the list of its components below the filesystem root; the root itself is
  the empty list and is always a directory. The filesystem maps every other existing
  path to the kind of node found there (an association list, read with \<open>map_of\<close>).
\<close>

type_synonym path = "string list"

datatype node = Dir | File

type_synonym filesystem = "(path \<times> node) list"

datatype errno = ENOTDIR | ENOENT | EEXIST

datatype PathError = PathError string path errno

text \<open>
  Modelled from the spec: the package \<open>os\<close> is not under src/. Section 4.1 asks that
  every path is created "and missing ancestors", section 3 that re-running "must not error
  if paths already exist". \<open>Stat\<close>, \<open>Mkdir\<close> and \<open>MkdirAll\<close> follow the library's documented
  behaviour on this tree of nodes: \<open>MkdirAll\<close> returns nil on an existing directory, fails
  with ENOTDIR on an existing file, and otherwise creates the parent first and then the
  path itself. A call returns its error (\<open>None\<close> is Go's nil) together with the filesystem
  it leaves behind, since a failing \<open>MkdirAll\<close> keeps the ancestors it has already made.
  Access rights are not part of the model.
\<close>

definition Stat :: "filesystem \<Rightarrow> path \<Rightarrow> node option" where
  "Stat fs p = (if p = [] then Some Dir else map_of fs p)"

definition Mkdir :: "filesystem \<Rightarrow> path \<Rightarrow> PathError option \<times> filesystem" where
  "Mkdir fs p =
     (case Stat fs p of
        Some _ \<Rightarrow> (Some (PathError ''mkdir'' p EEXIST), fs)
      | None \<Rightarrow>
          (case Stat fs (butlast p) of
             Some Dir \<Rightarrow> (None, (p, Dir) # fs)
           | Some File \<Rightarrow> (Some (PathError ''mkdir'' p ENOTDIR), fs)
           | None \<Rightarrow> (Some (PathError ''mkdir'' p ENOENT), fs)))"

fun MkdirAll :: "filesystem \<Rightarrow> path \<Rightarrow> PathError option \<times> filesystem" where
  "MkdirAll fs p =
     (case Stat fs p of
        Some Dir \<Rightarrow> (None, fs)
      | Some File \<Rightarrow> (Some (PathError ''mkdir'' p ENOTDIR), fs)
      | None \<Rightarrow>
          (case (if 1 < length p then MkdirAll fs (butlast p) else (None, fs)) of
             (Some e, fs1) \<Rightarrow> (Some e, fs1)
           | (None, fs1) \<Rightarrow>
               (case Mkdir fs1 p of
                  (None, fs2) \<Rightarrow> (None, fs2)
                | (Some e, fs2) \<Rightarrow>
                    (case Stat fs2 p of Some Dir \<Rightarrow> (None, fs2) | _ \<Rightarrow> (Some e, fs2)))))"

declare MkdirAll.simps [simp del]

text \<open>
  Modelled from the spec: the package \<open>constants\<close> is not under src/. \<open>Minipath\<close> (the
  "root directory" of section 6) depends on the user's home and is a parameter;
  \<open>MakeMiniPath\<close> joins further components below it.
\<close>

definition MakeMiniPath :: "path \<Rightarrow> string list \<Rightarrow> path" where
  "MakeMiniPath Minipath fileName = Minipath @ fileName"

definition dirs :: "path \<Rightarrow> path list" where
  "dirs Minipath =
     [Minipath,
      MakeMiniPath Minipath [''certs''],
      MakeMiniPath Minipath [''machines''],
      MakeMiniPath Minipath [''cache''],
      MakeMiniPath Minipath [''cache'', ''iso''],
      MakeMiniPath Minipath [''cache'', ''localkube''],
      MakeMiniPath Minipath [''config''],
      MakeMiniPath Minipath [''addons''],
      MakeMiniPath Minipath [''logs'']]"

text \<open>The loop of lines 74-78: the first failing \<open>MkdirAll\<close> ends it with that error.\<close>

fun MkdirAll_each :: "path list \<Rightarrow> filesystem \<Rightarrow> PathError option \<times> filesystem" where
  "MkdirAll_each [] fs = (None, fs)"
| "MkdirAll_each (p # ps) fs =
     (case MkdirAll fs p of
        (Some e, fs1) \<Rightarrow> (Some e, fs1)
      | (None, fs1) \<Rightarrow> MkdirAll_each ps fs1)"

text \<open>A filesystem is a tree: whatever exists lies in a directory.\<close>

definition tree_shaped :: "filesystem \<Rightarrow> bool" where
  "tree_shaped fs = list_all (\<lambda>(p, n). Stat fs (butlast p) = Some Dir) fs"

definition path_string :: "path \<Rightarrow> string" where
  "path_string p = concat (map (\<lambda>c. CHR ''/'' # c) p)"

section \<open>Strings and conversions used by the flag and configuration layers\<close>

text \<open>
  Modelled from the spec: the Go packages \<open>strings\<close>, \<open>strconv\<close> and \<open>cast\<close> are not under
  src/. Section 4.3 speaks of upper-casing a key and of replacing every \<open>-\<close> by \<open>_\<close>.
  Strings are byte lists; case mapping is the one of ASCII letters (other bytes stay).
  \<open>Atoi\<close> is the decimal parser of a 64-bit \<open>int\<close>: an optional sign, at least one digit,
  a range check; \<open>FormatInt\<close> is its decimal printer.
\<close>

definition upper_char :: "char \<Rightarrow> char" where
  "upper_char c =
     (let n = (of_char c :: nat) in if 97 \<le> n \<and> n \<le> 122 then char_of (n - 32) else c)"

definition lower_char :: "char \<Rightarrow> char" where
  "lower_char c =
     (let n = (of_char c :: nat) in if 65 \<le> n \<and> n \<le> 90 then char_of (n + 32) else c)"

definition ToUpper :: "string \<Rightarrow> string" where
  "ToUpper s = map upper_char s"

definition ToLower :: "string \<Rightarrow> string" where
  "ToLower s = map lower_char s"

datatype Replacer = NewReplacer char char

fun Replace :: "Replacer \<Rightarrow> string \<Rightarrow> string" where
  "Replace (NewReplacer old new) s = map (\<lambda>c. if c = old then new else c) s"

datatype strconv_error = ErrSyntax | ErrRange

definition FormatBool :: "bool \<Rightarrow> string" where
  "FormatBool b = (if b then ''true'' else ''false'')"

definition ParseBool :: "string \<Rightarrow> strconv_error + bool" where
  "ParseBool str =
     (if str \<in> set [''1'', ''t'', ''T'', ''TRUE'', ''true'', ''True''] then Inr True
      else if str \<in> set [''0'', ''f'', ''F'', ''FALSE'', ''false'', ''False''] then Inr False
      else Inl ErrSyntax)"

definition digit_char :: "int \<Rightarrow> char" where
  "digit_char d = char_of (48 + d)"

definition digit_of :: "char \<Rightarrow> int option" where
  "digit_of c =
     (let n = (of_char c :: int) in if 48 \<le> n \<and> n \<le> 57 then Some (n - 48) else None)"

function digits :: "int \<Rightarrow> string" where
  "digits n = (if n < 10 then [digit_char n] else digits (n div 10) @ [digit_char (n mod 10)])"
  by pat_completeness auto
termination
  by (relation "measure nat") auto

declare digits.simps [simp del]

definition FormatInt :: "int \<Rightarrow> string" where
  "FormatInt i = (if i < 0 then CHR ''-'' # digits (- i) else digits i)"

fun digits_value :: "int \<Rightarrow> string \<Rightarrow> int option" where
  "digits_value acc [] = Some acc"
| "digits_value acc (c # cs) =
     (case digit_of c of None \<Rightarrow> None | Some d \<Rightarrow> digits_value (acc * 10 + d) cs)"

definition Atoi :: "string \<Rightarrow> strconv_error + int" where
  "Atoi s =
     (let (neg, ds) =
        (case s of
           [] \<Rightarrow> (False, [])
         | c # cs \<Rightarrow>
             if c = CHR ''+'' then (False, cs)
             else if c = CHR ''-'' then (True, cs)
             else (False, s))
      in if ds = [] then Inl ErrSyntax
         else (case digits_value 0 ds of
                 None \<Rightarrow> Inl ErrSyntax
               | Some n \<Rightarrow>
                   if \<not> neg \<and> 2 ^ 63 \<le> n then Inl ErrRange
                   else if neg \<and> 2 ^ 63 < n then Inl ErrRange
                   else Inr (if neg then - n else n)))"

text \<open>
  The values the configuration store holds (Go's \<open>interface{}\<close>): booleans, strings and
  integral JSON numbers. Other JSON values are outside the model.
\<close>

datatype val = VBool bool | VNumber int | VString string

fun ToString :: "val option \<Rightarrow> string" where
  "ToString None = []"
| "ToString (Some (VBool b)) = FormatBool b"
| "ToString (Some (VNumber n)) = FormatInt n"
| "ToString (Some (VString s)) = s"

fun ToBool :: "val option \<Rightarrow> bool" where
  "ToBool None = False"
| "ToBool (Some (VBool b)) = b"
| "ToBool (Some (VNumber n)) = (n \<noteq> 0)"
| "ToBool (Some (VString s)) = (case ParseBool s of Inr b \<Rightarrow> b | Inl _ \<Rightarrow> False)"

section \<open>Flags (pflag) and the logging library's flag values\<close>

text \<open>
  Modelled from the spec: the packages \<open>pflag\<close>, \<open>flag\<close> and \<open>glog\<close> are not under src/.
  Section 3 gives a flag its "name, default value, current value" and "changed" marker;
  section 6 names the external flags \<open>v\<close>, \<open>alsologtostderr\<close> and \<open>log_dir\<close>, whose
  "types/defaults [are] owned by the logging collaborator": a 32-bit level, a boolean and a
  string. \<open>Value_String\<close> and \<open>Value_Set\<close> are the two methods of a flag value that root.go
  calls. \<open>Value_Set\<close> returns the error next to the new value: a level keeps its old value
  when the text is no number, a boolean becomes false when the text is no boolean.
\<close>

datatype Value = boolValue bool | Level "32 word" | stringValue string

fun Value_String :: "Value \<Rightarrow> string" where
  "Value_String (boolValue b) = FormatBool b"
| "Value_String (Level l) = FormatInt (sint l)"
| "Value_String (stringValue s) = s"

fun Value_Set :: "Value \<Rightarrow> string \<Rightarrow> strconv_error option \<times> Value" where
  "Value_Set (boolValue b) s =
     (case ParseBool s of Inr v \<Rightarrow> (None, boolValue v) | Inl e \<Rightarrow> (Some e, boolValue False))"
| "Value_Set (Level l) s =
     (case Atoi s of Inr v \<Rightarrow> (None, Level (word_of_int v)) | Inl e \<Rightarrow> (Some e, Level l))"
| "Value_Set (stringValue old) s = (None, stringValue s)"

record Flag =
  Name :: string
  DefValue :: string
  Value :: Value
  Changed :: bool

text \<open>
  A flag set lists its flags; \<open>Lookup\<close> finds the one of a name (Go returns a nil pointer
  when there is none). Go hands out a pointer to the flag, and root.go writes through it:
  \<open>store\<close> puts the written flag back in the place \<open>Lookup\<close> found it.
\<close>

type_synonym FlagSet = "Flag list"

fun Lookup :: "FlagSet \<Rightarrow> string \<Rightarrow> Flag option" where
  "Lookup [] name = None"
| "Lookup (f # fs) name = (if Name f = name then Some f else Lookup fs name)"

fun store :: "FlagSet \<Rightarrow> Flag \<Rightarrow> FlagSet" where
  "store [] a = []"
| "store (f # fs) a = (if Name f = Name a then a # fs else f # store fs a)"

definition Bool :: "FlagSet \<Rightarrow> string \<Rightarrow> bool \<Rightarrow> FlagSet" where
  "Bool fs name v =
     fs @ [\<lparr>Name = name, DefValue = FormatBool v, Value = boolValue v, Changed = False\<rparr>]"

datatype GoFlag = GoFlag string Value

definition PFlagFromGoFlag :: "GoFlag \<Rightarrow> Flag" where
  "PFlagFromGoFlag g =
     (case g of GoFlag name v \<Rightarrow>
        \<lparr>Name = name, DefValue = Value_String v, Value = v, Changed = False\<rparr>)"

fun AddGoFlagSet :: "FlagSet \<Rightarrow> GoFlag list \<Rightarrow> FlagSet" where
  "AddGoFlagSet fs [] = fs"
| "AddGoFlagSet fs (g # gs) =
     (case g of GoFlag name v \<Rightarrow>
        AddGoFlagSet (if Lookup fs name \<noteq> None then fs else fs @ [PFlagFromGoFlag g]) gs)"

definition glog_flags :: "GoFlag list" where
  "glog_flags =
     [GoFlag ''log_dir'' (stringValue ''''),
      GoFlag ''alsologtostderr'' (boolValue False),
      GoFlag ''v'' (Level 0)]"

section \<open>The configuration store (viper)\<close>

text \<open>
  Modelled from the spec: the package \<open>viper\<close> is not under src/. Section 3 describes the
  store as a "mapping from configuration key ... to value ... populated in layered order
  (defaults, then config file, then environment, then explicit flags -- later layers win on
  lookup)"; the comment of root.go (lines 128-129) puts calls of \<open>Set\<close> first. The lookup
  below has these layers, highest first: \<open>override\<close> (calls of \<open>Set\<close>), the bound flags that
  were changed, the environment (once \<open>AutomaticEnv\<close> is on; an empty variable counts as
  unset), the config file, the defaults. Keys are compared in lower case. The environment
  variable of a key is found as section 4.3 says: prefix, \<open>_\<close> and key are joined and
  upper-cased, then the replacer is applied. Nested keys, aliases and remote stores are
  outside the model; root.go uses none.
\<close>

record Viper =
  envPrefix :: string
  envKeyReplacer :: "Replacer option"
  automaticEnvApplied :: bool
  override :: "string \<rightharpoonup> val"
  pflags :: "string \<rightharpoonup> string"
  config :: "string \<rightharpoonup> val"
  defaults :: "string \<rightharpoonup> val"

definition New :: Viper where
  "New = \<lparr>envPrefix = [], envKeyReplacer = None, automaticEnvApplied = False,
          override = Map.empty, pflags = Map.empty, config = Map.empty,
          defaults = Map.empty\<rparr>"

definition SetEnvPrefix :: "Viper \<Rightarrow> string \<Rightarrow> Viper" where
  "SetEnvPrefix v inp = (if inp \<noteq> [] then v\<lparr>envPrefix := inp\<rparr> else v)"

definition SetEnvKeyReplacer :: "Viper \<Rightarrow> Replacer \<Rightarrow> Viper" where
  "SetEnvKeyReplacer v r = v\<lparr>envKeyReplacer := Some r\<rparr>"

definition AutomaticEnv :: "Viper \<Rightarrow> Viper" where
  "AutomaticEnv v = v\<lparr>automaticEnvApplied := True\<rparr>"

definition SetDefault :: "Viper \<Rightarrow> string \<Rightarrow> val \<Rightarrow> Viper" where
  "SetDefault v key x = v\<lparr>defaults := (defaults v)(ToLower key \<mapsto> x)\<rparr>"

definition Set :: "Viper \<Rightarrow> string \<Rightarrow> val \<Rightarrow> Viper" where
  "Set v key x = v\<lparr>override := (override v)(ToLower key \<mapsto> x)\<rparr>"

fun BindPFlags :: "Viper \<Rightarrow> FlagSet \<Rightarrow> Viper" where
  "BindPFlags v [] = v"
| "BindPFlags v (f # fs) =
     BindPFlags (v\<lparr>pflags := (pflags v)(ToLower (Name f) \<mapsto> Name f)\<rparr>) fs"

definition mergeWithEnvPrefix :: "Viper \<Rightarrow> string \<Rightarrow> string" where
  "mergeWithEnvPrefix v inp =
     (if envPrefix v \<noteq> [] then ToUpper (envPrefix v @ ''_'' @ inp) else ToUpper inp)"

definition envKey :: "Viper \<Rightarrow> string \<Rightarrow> string" where
  "envKey v key = (case envKeyReplacer v of Some r \<Rightarrow> Replace r key | None \<Rightarrow> key)"

definition getEnv :: "Viper \<Rightarrow> (string \<Rightarrow> string) \<Rightarrow> string \<Rightarrow> string" where
  "getEnv v Getenv key = Getenv (envKey v key)"

definition flag_val :: "Flag \<Rightarrow> val" where
  "flag_val f =
     (case Value f of
        boolValue b \<Rightarrow> VBool (ToBool (Some (VString (Value_String (Value f)))))
      | _ \<Rightarrow> VString (Value_String (Value f)))"

definition find_viper ::
  "Viper \<Rightarrow> FlagSet \<Rightarrow> (string \<Rightarrow> string) \<Rightarrow> string \<Rightarrow> val option" where
  "find_viper v bound Getenv lcaseKey =
     (case override v lcaseKey of
        Some x \<Rightarrow> Some x
      | None \<Rightarrow>
          (case (case pflags v lcaseKey of
                   None \<Rightarrow> None
                 | Some name \<Rightarrow>
                     (case Lookup bound name of
                        None \<Rightarrow> None
                      | Some f \<Rightarrow> if Changed f then Some (flag_val f) else None)) of
             Some x \<Rightarrow> Some x
           | None \<Rightarrow>
               (let e = (if automaticEnvApplied v
                         then getEnv v Getenv (mergeWithEnvPrefix v lcaseKey) else [])
                in if e \<noteq> [] then Some (VString e)
                   else (case config v lcaseKey of
                           Some x \<Rightarrow> Some x
                         | None \<Rightarrow> defaults v lcaseKey))))"

definition Get :: "Viper \<Rightarrow> FlagSet \<Rightarrow> (string \<Rightarrow> string) \<Rightarrow> string \<Rightarrow> val option" where
  "Get v bound Getenv key = find_viper v bound Getenv (ToLower key)"

definition GetString :: "Viper \<Rightarrow> FlagSet \<Rightarrow> (string \<Rightarrow> string) \<Rightarrow> string \<Rightarrow> string" where
  "GetString v bound Getenv key = ToString (Get v bound Getenv key)"

definition GetBool :: "Viper \<Rightarrow> FlagSet \<Rightarrow> (string \<Rightarrow> string) \<Rightarrow> string \<Rightarrow> bool" where
  "GetBool v bound Getenv key = ToBool (Get v bound Getenv key)"

text \<open>
  Reading the config file: what the file holds is an input. A file that cannot be read
  leaves the config layer as it is; a file that is no JSON leaves it empty; a JSON object
  becomes the layer, its keys in lower case.
\<close>

datatype config_file = Unreadable | Malformed | Json "(string \<times> val) list"

datatype config_error = ConfigFileNotFoundError | ConfigParseError

definition ReadInConfig :: "Viper \<Rightarrow> config_file \<Rightarrow> config_error option \<times> Viper" where
  "ReadInConfig v file =
     (case file of
        Unreadable \<Rightarrow> (Some ConfigFileNotFoundError, v)
      | Malformed \<Rightarrow> (Some ConfigParseError, v\<lparr>config := Map.empty\<rparr>)
      | Json kvs \<Rightarrow> (None, v\<lparr>config := map_of (map (\<lambda>(k, x). (ToLower k, x)) kvs)\<rparr>))"

fun config_error_Error :: "config_error \<Rightarrow> string" where
  "config_error_Error ConfigFileNotFoundError = ''open: no such file or directory''"
| "config_error_Error ConfigParseError = ''While parsing config: invalid character''"

fun errno_Error :: "errno \<Rightarrow> string" where
  "errno_Error ENOTDIR = ''not a directory''"
| "errno_Error ENOENT = ''no such file or directory''"
| "errno_Error EEXIST = ''file exists''"

fun PathError_Error :: "PathError \<Rightarrow> string" where
  "PathError_Error (PathError op p e) = op @ '' '' @ path_string p @ '': '' @ errno_Error e"

section \<open>The program state and the functions of root.go\<close>

text \<open>
  \<open>Getenv\<close> is the process environment (the empty string for an unset variable).
  \<open>OutWriter\<close>, \<open>ErrWriter\<close> and \<open>IsDebug\<close> are the settings of the libmachine logger. What
  the program prints, logs or asks of a collaborator whose code is outside root.go is
  appended to \<open>trace\<close>, the oldest event first. The variable \<open>clientType\<close> (line 59) only
  keeps what \<open>GetClientType\<close> returns; its type and that function are not under src/, so
  the call is recorded and its result is not.
\<close>

datatype Writer = Stdout | Stderr | Discard

datatype Event =
    Println string
  | Warningf string "string list"
  | Exitf string "string list"
  | GetClientType
  | MaybePrintUpdateTextFromGithub
  | MaybePrintKubectlDownloadMsg

record State =
  CommandLine :: FlagSet
  PersistentFlags :: FlagSet
  viper :: Viper
  Getenv :: "string \<Rightarrow> string"
  filesystem :: filesystem
  enableUpdateNotification :: bool
  enableKubectlDownloadMsg :: bool
  OutWriter :: Writer
  ErrWriter :: Writer
  IsDebug :: bool
  trace :: "Event list"

definition showLibmachineLogs :: string where
  "showLibmachineLogs = ''show-libmachine-logs''"

definition useVendoredDriver :: string where
  "useVendoredDriver = ''use-vendored-driver''"

definition viperWhiteList :: "string list" where
  "viperWhiteList = [''v'', ''alsologtostderr'', ''log_dir'']"

text \<open>
  Modelled from the spec: the packages \<open>constants\<close> and \<open>config\<close> are not under src/.
  Section 6 names the keys "want update notification", "reminder wait period in hours",
  "want report error", "want report error prompt" and "want kubectl download message"; they
  are spelled here as the identifiers of root.go spell them. The environment prefix is "a
  fixed tool-specific string", taken to be the name of the tool in capitals.
\<close>

definition MinikubeEnvPrefix :: string where
  "MinikubeEnvPrefix = ''MINIKUBE''"

definition WantUpdateNotification :: string where
  "WantUpdateNotification = ''WantUpdateNotification''"

definition ReminderWaitPeriodInHours :: string where
  "ReminderWaitPeriodInHours = ''ReminderWaitPeriodInHours''"

definition WantReportError :: string where
  "WantReportError = ''WantReportError''"

definition WantReportErrorPrompt :: string where
  "WantReportErrorPrompt = ''WantReportErrorPrompt''"

definition WantKubectlDownloadMsg :: string where
  "WantKubectlDownloadMsg = ''WantKubectlDownloadMsg''"

definition ConfigFile :: "path \<Rightarrow> path" where
  "ConfigFile Minipath = MakeMiniPath Minipath [''config'', ''config.json'']"

text \<open>
  Modelled from the spec: \<open>glog.V\<close> is not under src/. Section 4.5 step 4 compares the
  verbosity with a threshold; the verbosity is the current value of the flag \<open>v\<close>.
\<close>

definition verbosity :: "State \<Rightarrow> int" where
  "verbosity st =
     (case Lookup (CommandLine st) ''v'' of
        Some a \<Rightarrow> (case Value a of Level l \<Rightarrow> sint l | _ \<Rightarrow> 0)
      | None \<Rightarrow> 0)"

definition V :: "State \<Rightarrow> int \<Rightarrow> bool" where
  "V st level = (level \<le> verbosity st)"

datatype panic = NilPointerDereference

text \<open>
  \<open>setFlagsUsingViper\<close> (lines 120-133). The loop runs over a list of names; \<open>pflag.Lookup\<close>
  on a name that is not registered gives nil, and reading \<open>a.Name\<close> then panics. The body
  of the loop, for the flag \<open>a\<close> that was found, is \<open>setFlagsUsingViper_body\<close>. The error
  that \<open>a.Value.Set\<close> returns is dropped, as in the source.
\<close>

definition setFlagsUsingViper_body :: "Flag \<Rightarrow> State \<Rightarrow> State" where
  "setFlagsUsingViper_body a st =
     (let v1 = SetDefault (viper st) (Name a) (VString (DefValue a));
          v2 = (if Changed a then Set v1 (Name a) (VString (Value_String (Value a)))
                else v1);
          a1 = a\<lparr>Value :=
                   snd (Value_Set (Value a)
                          (GetString v2 (PersistentFlags st) (Getenv st) (Name a)))\<rparr>;
          a2 = a1\<lparr>Changed := True\<rparr>
      in st\<lparr>viper := v2, CommandLine := store (CommandLine st) a2\<rparr>)"

fun setFlagsUsingViper_loop :: "string list \<Rightarrow> State \<Rightarrow> panic + State" where
  "setFlagsUsingViper_loop [] st = Inr st"
| "setFlagsUsingViper_loop (config' # rest) st =
     (case Lookup (CommandLine st) config' of
        None \<Rightarrow> Inl NilPointerDereference
      | Some a \<Rightarrow> setFlagsUsingViper_loop rest (setFlagsUsingViper_body a st))"

definition setFlagsUsingViper :: "State \<Rightarrow> panic + State" where
  "setFlagsUsingViper st = setFlagsUsingViper_loop viperWhiteList st"

text \<open>
  \<open>init\<close> (lines 135-147). The flags of the Go flag set (those of the logging library)
  are a parameter. \<open>AddCommand\<close> and \<open>OnInitialize\<close> only register what runs later.
\<close>

definition init :: "path \<Rightarrow> GoFlag list \<Rightarrow> State \<Rightarrow> panic + State" where
  "init Minipath goflag_CommandLine st =
     (let pf = Bool (Bool (PersistentFlags st) showLibmachineLogs False) useVendoredDriver False;
          cl = AddGoFlagSet (CommandLine st) goflag_CommandLine
      in case Lookup cl ''log_dir'' of
           None \<Rightarrow> Inl NilPointerDereference
         | Some logDir \<Rightarrow>
             (let cl1 = (if \<not> Changed logDir
                         then store cl
                                (logDir\<lparr>Value :=
                                   snd (Value_Set (Value logDir)
                                          (path_string (MakeMiniPath Minipath [''logs''])))\<rparr>)
                         else cl)
              in Inr (st\<lparr>PersistentFlags := pf, CommandLine := cl1,
                         viper := BindPFlags (viper st) pf\<rparr>)))"

text \<open>\<open>setupViper\<close> (lines 161-174).\<close>

definition setupViper :: "State \<Rightarrow> panic + State" where
  "setupViper st =
     (let v1 = SetEnvPrefix (viper st) MinikubeEnvPrefix;
          v2 = SetEnvKeyReplacer v1 (NewReplacer CHR ''-'' CHR ''_'');
          v3 = AutomaticEnv v2;
          v4 = SetDefault v3 WantUpdateNotification (VBool True);
          v5 = SetDefault v4 ReminderWaitPeriodInHours (VNumber 24);
          v6 = SetDefault v5 WantReportError (VBool False);
          v7 = SetDefault v6 WantReportErrorPrompt (VBool True);
          v8 = SetDefault v7 WantKubectlDownloadMsg (VBool True)
      in setFlagsUsingViper (st\<lparr>viper := v8\<rparr>))"

text \<open>
  \<open>initConfig\<close> (lines 150-159). What the config file holds is the parameter \<open>file\<close>.
  \<open>SetConfigFile\<close> and \<open>SetConfigType\<close> only say which file is read and how.
\<close>

definition initConfig :: "path \<Rightarrow> config_file \<Rightarrow> State \<Rightarrow> panic + State" where
  "initConfig Minipath file st =
     (let configPath = path_string (ConfigFile Minipath);
          (err, v1) = ReadInConfig (viper st) file;
          st1 = st\<lparr>viper := v1\<rparr>;
          st2 = (case err of
                   None \<Rightarrow> st1
                 | Some e \<Rightarrow>
                     st1\<lparr>trace := trace st1 @
                            [Warningf ''Error reading config file at %s: %s''
                               [configPath, config_error_Error e]]\<rparr>)
      in setupViper st2)"

text \<open>
  \<open>RootCmd.PersistentPreRun\<close> (lines 73-107). \<open>glog.Exitf\<close> logs its message and ends the
  process with status 1: the hook then stops in \<open>Exited\<close> with the state reached so far.
\<close>

datatype Outcome = Exited nat State | Returned State

definition deprecation_text :: string where
  "deprecation_text =
     ''\<newline>--show-libmachine-logs is deprecated.\<newline>'' @
     ''Please use --v=3 to show libmachine logs, and --v=7 for debug level libmachine logs\<newline>''"

definition PersistentPreRun :: "path \<Rightarrow> State \<Rightarrow> Outcome" where
  "PersistentPreRun Minipath st =
     (case MkdirAll_each (dirs Minipath) (filesystem st) of
        (Some err, fs1) \<Rightarrow>
          Exited 1
            (st\<lparr>filesystem := fs1,
                trace := trace st @
                  [Exitf ''Error creating minikube directory: %s'' [PathError_Error err]]\<rparr>)
      | (None, fs1) \<Rightarrow>
          (let st1 = st\<lparr>filesystem := fs1\<rparr>;
               st2 = (if GetBool (viper st1) (PersistentFlags st1) (Getenv st1) showLibmachineLogs
                      then st1\<lparr>trace := trace st1 @ [Println deprecation_text]\<rparr>
                      else st1);
               st3 = st2\<lparr>trace := trace st2 @ [GetClientType]\<rparr>;
               st4 = (if \<not> V st3 3 then st3\<lparr>OutWriter := Discard, ErrWriter := Discard\<rparr>
                      else st3);
               st5 = (if V st4 7 then st4\<lparr>IsDebug := True\<rparr> else st4);
               st6 = (if enableUpdateNotification st5
                      then st5\<lparr>trace := trace st5 @ [MaybePrintUpdateTextFromGithub]\<rparr>
                      else st5);
               st7 = (if enableKubectlDownloadMsg st6
                      then st6\<lparr>trace := trace st6 @ [MaybePrintKubectlDownloadMsg]\<rparr>
                      else st6)
           in Returned st7))"

text \<open>The package variables of lines 56-60 and an empty world, before \<open>init\<close> has run.\<close>

definition initial :: "(string \<Rightarrow> string) \<Rightarrow> filesystem \<Rightarrow> State" where
  "initial env fs =
     \<lparr>CommandLine = [], PersistentFlags = [], viper = New, Getenv = env, filesystem = fs,
      enableUpdateNotification = True, enableKubectlDownloadMsg = True,
      OutWriter = Stdout, ErrWriter = Stderr, IsDebug = False, trace = []\<rparr>"

text \<open>
  The formula of section 4.3 for the environment variable of a key: "uppercase the key,
  replace every \<open>-\<close> with \<open>_\<close>, and prepend a fixed process-specific prefix followed by
  \<open>_\<close>". It is written after the spec's words, to be compared with what the store computes.
\<close>

definition spec_env_name :: "string \<Rightarrow> string" where
  "spec_env_name key =
     MinikubeEnvPrefix @ ''_'' @ map (\<lambda>c. if c = CHR ''-'' then CHR ''_'' else c) (ToUpper key)"

text \<open>
  Modelled from the spec: the parser of pflag is not under src/. Section 3 calls the
  marker of a flag "a changed marker indicating an explicit user-supplied value on this
  invocation": parsing \<open>--name=value\<close> sets the value of the registered flag and marks it
  as changed. It serves to build states in which a flag was supplied.
\<close>

definition supplied :: "string \<Rightarrow> string \<Rightarrow> State \<Rightarrow> State" where
  "supplied name x st =
     (case Lookup (CommandLine st) name of
        None \<Rightarrow> st
      | Some a \<Rightarrow>
          st\<lparr>CommandLine :=
               store (CommandLine st) (a\<lparr>Value := snd (Value_Set (Value a) x), Changed := True\<rparr>)\<rparr>)"

text \<open>Two flag values are of the same kind when they are values of the same Go type.\<close>

fun same_kind :: "Value \<Rightarrow> Value \<Rightarrow> bool" where
  "same_kind (boolValue _) (boolValue _) = True"
| "same_kind (Level _) (Level _) = True"
| "same_kind (stringValue _) (stringValue _) = True"
| "same_kind _ _ = False"

text \<open>
  The state in which the command line is parsed: \<open>init\<close> has run on the package variables,
  with the flags of the logging library in Go's flag set.
\<close>

definition started :: "path \<Rightarrow> (string \<Rightarrow> string) \<Rightarrow> filesystem \<Rightarrow> State" where
  "started Minipath env fs =
     (case init Minipath glog_flags (initial env fs) of
        Inr st \<Rightarrow> st
      | Inl _ \<Rightarrow> initial env fs)"

section \<open>Properties of directory provisioning\<close>

lemma Stat_Mkdir: "Mkdir fs p = (None, fs1) \<Longrightarrow> Stat fs1 q = (if q = p then Some Dir else Stat fs q)"
  by (auto simp: Mkdir_def Stat_def split: option.splits node.splits if_splits)

lemma Mkdir_fresh: "Mkdir fs p = (None, fs1) \<Longrightarrow> Stat fs p = None"
  by (auto simp: Mkdir_def split: option.splits node.splits)

lemma Mkdir_parent: "Mkdir fs p = (None, fs1) \<Longrightarrow> Stat fs (butlast p) = Some Dir \<and> fs1 = (p, Dir) # fs"
  by (auto simp: Mkdir_def split: option.splits node.splits)

lemma Mkdir_error: "Mkdir fs p = (Some e, fs1) \<Longrightarrow> fs1 = fs"
  by (auto simp: Mkdir_def split: option.splits node.splits)

lemma MkdirAll_existing: "Stat fs p = Some Dir \<Longrightarrow> MkdirAll fs p = (None, fs)"
  by (simp add: MkdirAll.simps)

lemma MkdirAll_Inr_cases:
  assumes "MkdirAll fs p = (None, fs1)"
  shows "(Stat fs p = Some Dir \<and> fs1 = fs) \<or>
         (Stat fs p = None \<and>
          (\<exists>fs0. (if 1 < length p then MkdirAll fs (butlast p) = (None, fs0) else fs0 = fs) \<and>
                 (Mkdir fs0 p = (None, fs1) \<or> (fs1 = fs0 \<and> Stat fs0 p = Some Dir))))"
  using assms
  by (subst (asm) MkdirAll.simps)
     (auto split: option.splits node.splits prod.splits if_splits dest: Mkdir_error)

lemma MkdirAll_keeps: "MkdirAll fs p = (None, fs1) \<Longrightarrow> Stat fs q = Some n \<Longrightarrow> Stat fs1 q = Some n"
proof (induction fs p arbitrary: fs1 rule: MkdirAll.induct)
  case (1 fs p)
  from MkdirAll_Inr_cases[OF "1.prems"(1)]
  consider "fs1 = fs"
    | fs0 where "Stat fs p = None"
        "if 1 < length p then MkdirAll fs (butlast p) = (None, fs0) else fs0 = fs"
        "Mkdir fs0 p = (None, fs1) \<or> fs1 = fs0 \<and> Stat fs0 p = Some Dir"
    by blast
  then show ?case
  proof cases
    case 1
    with "1.prems"(2) show ?thesis by simp
  next
    case 2
    have k0: "Stat fs0 q = Some n"
    proof (cases "1 < length p")
      case True
      with 2(2) have "MkdirAll fs (butlast p) = (None, fs0)" by simp
      from "1.IH"[OF 2(1) True this "1.prems"(2)] show ?thesis .
    next
      case False
      with 2(2) "1.prems"(2) show ?thesis by simp
    qed
    from 2(3) show ?thesis
    proof
      assume mk: "Mkdir fs0 p = (None, fs1)"
      from Stat_Mkdir[OF mk, of q] Mkdir_fresh[OF mk] k0 show ?thesis
        by (auto split: if_splits)
    next
      assume "fs1 = fs0 \<and> Stat fs0 p = Some Dir"
      with k0 show ?thesis by simp
    qed
  qed
qed

lemma MkdirAll_makes: "MkdirAll fs p = (None, fs1) \<Longrightarrow> Stat fs1 p = Some Dir"
  using MkdirAll_Inr_cases[of fs p fs1] by (auto simp: Stat_Mkdir)

lemma tree_shaped_iff:
  "tree_shaped fs \<longleftrightarrow> (\<forall>p n. (p, n) \<in> set fs \<longrightarrow> Stat fs (butlast p) = Some Dir)"
  by (auto simp: tree_shaped_def list_all_iff)

lemma tree_shaped_Mkdir:
  assumes t: "tree_shaped fs" and mk: "Mkdir fs p = (None, fs1)"
  shows "tree_shaped fs1"
  unfolding tree_shaped_iff
proof (intro allI impI)
  fix a b
  assume "(a, b) \<in> set fs1"
  with Mkdir_parent[OF mk] have "a = p \<or> (a, b) \<in> set fs" by auto
  then have "Stat fs (butlast a) = Some Dir"
    using Mkdir_parent[OF mk] t by (auto simp: tree_shaped_iff)
  then show "Stat fs1 (butlast a) = Some Dir"
    by (simp add: Stat_Mkdir[OF mk])
qed

lemma tree_shaped_MkdirAll: "MkdirAll fs p = (None, fs1) \<Longrightarrow> tree_shaped fs \<Longrightarrow> tree_shaped fs1"
proof (induction fs p arbitrary: fs1 rule: MkdirAll.induct)
  case (1 fs p)
  from MkdirAll_Inr_cases[OF "1.prems"(1)]
  consider "fs1 = fs"
    | fs0 where "Stat fs p = None"
        "if 1 < length p then MkdirAll fs (butlast p) = (None, fs0) else fs0 = fs"
        "Mkdir fs0 p = (None, fs1) \<or> fs1 = fs0 \<and> Stat fs0 p = Some Dir"
    by blast
  then show ?case
  proof cases
    case 1
    with "1.prems"(2) show ?thesis by simp
  next
    case 2
    have t0: "tree_shaped fs0"
    proof (cases "1 < length p")
      case True
      with 2(2) have "MkdirAll fs (butlast p) = (None, fs0)" by simp
      from "1.IH"[OF 2(1) True this "1.prems"(2)] show ?thesis .
    next
      case False
      with 2(2) "1.prems"(2) show ?thesis by simp
    qed
    from 2(3) t0 show ?thesis
      by (auto dest: tree_shaped_Mkdir)
  qed
qed

lemma tree_shaped_parent:
  assumes "tree_shaped fs" and "Stat fs p = Some n"
  shows "Stat fs (butlast p) = Some Dir"
proof (cases "p = []")
  case True
  then show ?thesis by (simp add: Stat_def)
next
  case False
  with assms(2) have "(p, n) \<in> set fs" by (auto simp: Stat_def dest: map_of_SomeD)
  with assms(1) show ?thesis by (auto simp: tree_shaped_iff)
qed

lemma tree_shaped_ancestors:
  "tree_shaped fs \<Longrightarrow> Stat fs p = Some Dir \<Longrightarrow> Stat fs (take k p) = Some Dir"
proof (induction "length p - k" arbitrary: k)
  case 0
  then show ?case by simp
next
  case (Suc d)
  then have k: "k < length p" by simp
  from Suc.hyps(1)[of "Suc k"] Suc.hyps(2) Suc.prems
  have "Stat fs (take (Suc k) p) = Some Dir" by simp
  from tree_shaped_parent[OF Suc.prems(1) this] k show ?case
    by (simp add: butlast_take)
qed

lemma MkdirAll_each_keeps:
  "MkdirAll_each ps fs = (None, fs1) \<Longrightarrow> Stat fs q = Some n \<Longrightarrow> Stat fs1 q = Some n"
  by (induction ps arbitrary: fs) (auto split: prod.splits option.splits dest: MkdirAll_keeps)

lemma MkdirAll_each_makes:
  "MkdirAll_each ps fs = (None, fs1) \<Longrightarrow> p \<in> set ps \<Longrightarrow> Stat fs1 p = Some Dir"
  by (induction ps arbitrary: fs) (auto split: prod.splits option.splits dest: MkdirAll_makes MkdirAll_each_keeps)

lemma MkdirAll_each_existing:
  "\<forall>p\<in>set ps. Stat fs p = Some Dir \<Longrightarrow> MkdirAll_each ps fs = (None, fs)"
  by (induction ps) (auto simp: MkdirAll_existing)

lemma tree_shaped_MkdirAll_each:
  "MkdirAll_each ps fs = (None, fs1) \<Longrightarrow> tree_shaped fs \<Longrightarrow> tree_shaped fs1"
  by (induction ps arbitrary: fs) (auto split: prod.splits option.splits dest: tree_shaped_MkdirAll)

text \<open>
  C9. Directory provisioning is idempotent. When the loop over \<open>dirs\<close> has run without
  error on a tree-shaped filesystem, running it again on the filesystem it left gives no
  error and the very same filesystem; and after the first run every path of the list and
  every ancestor of it (each initial segment of its components) is a directory.
\<close>

theorem provisioning_idempotent:
  assumes "tree_shaped fs" and "MkdirAll_each (dirs Minipath) fs = (None, fs1)"
  shows "MkdirAll_each (dirs Minipath) fs1 = (None, fs1) \<and>
         (\<forall>p\<in>set (dirs Minipath). \<forall>k. Stat fs1 (take k p) = Some Dir)"
proof -
  have made: "\<forall>p\<in>set (dirs Minipath). Stat fs1 p = Some Dir"
    using assms(2) by (blast intro: MkdirAll_each_makes)
  have t1: "tree_shaped fs1"
    using assms by (rule tree_shaped_MkdirAll_each[rotated])
  from made t1 show ?thesis
    by (auto intro: MkdirAll_each_existing tree_shaped_ancestors)
qed

theorem provisioning_idempotent_witness:
  "tree_shaped [] \<and>
   MkdirAll_each (dirs [''home'', ''.minikube'']) [] =
     (None,
      [([''home'', ''.minikube'', ''logs''], Dir),
       ([''home'', ''.minikube'', ''addons''], Dir),
       ([''home'', ''.minikube'', ''config''], Dir),
       ([''home'', ''.minikube'', ''cache'', ''localkube''], Dir),
       ([''home'', ''.minikube'', ''cache'', ''iso''], Dir),
       ([''home'', ''.minikube'', ''cache''], Dir),
       ([''home'', ''.minikube'', ''machines''], Dir),
       ([''home'', ''.minikube'', ''certs''], Dir),
       ([''home'', ''.minikube''], Dir),
       ([''home''], Dir)]) \<and>
   MkdirAll_each (dirs [''home'', ''.minikube''])
      [([''home'', ''.minikube'', ''logs''], Dir),
       ([''home'', ''.minikube'', ''addons''], Dir),
       ([''home'', ''.minikube'', ''config''], Dir),
       ([''home'', ''.minikube'', ''cache'', ''localkube''], Dir),
       ([''home'', ''.minikube'', ''cache'', ''iso''], Dir),
       ([''home'', ''.minikube'', ''cache''], Dir),
       ([''home'', ''.minikube'', ''machines''], Dir),
       ([''home'', ''.minikube'', ''certs''], Dir),
       ([''home'', ''.minikube''], Dir),
       ([''home''], Dir)] =
     (None,
      [([''home'', ''.minikube'', ''logs''], Dir),
       ([''home'', ''.minikube'', ''addons''], Dir),
       ([''home'', ''.minikube'', ''config''], Dir),
       ([''home'', ''.minikube'', ''cache'', ''localkube''], Dir),
       ([''home'', ''.minikube'', ''cache'', ''iso''], Dir),
       ([''home'', ''.minikube'', ''cache''], Dir),
       ([''home'', ''.minikube'', ''machines''], Dir),
       ([''home'', ''.minikube'', ''certs''], Dir),
       ([''home'', ''.minikube''], Dir),
       ([''home''], Dir)])"
proof -
  have t: "tree_shaped []"
    by (simp add: tree_shaped_def)
  have run: "MkdirAll_each (dirs [''home'', ''.minikube'']) [] =
     (None,
      [([''home'', ''.minikube'', ''logs''], Dir),
       ([''home'', ''.minikube'', ''addons''], Dir),
       ([''home'', ''.minikube'', ''config''], Dir),
       ([''home'', ''.minikube'', ''cache'', ''localkube''], Dir),
       ([''home'', ''.minikube'', ''cache'', ''iso''], Dir),
       ([''home'', ''.minikube'', ''cache''], Dir),
       ([''home'', ''.minikube'', ''machines''], Dir),
       ([''home'', ''.minikube'', ''certs''], Dir),
       ([''home'', ''.minikube''], Dir),
       ([''home''], Dir)])"
    by code_simp
  from provisioning_idempotent[OF t run] t run show ?thesis
    by blast
qed

section \<open>Properties of the conversions\<close>

lemma ParseBool_FormatBool: "ParseBool (FormatBool b) = Inr b"
  by (simp add: ParseBool_def FormatBool_def)

lemma digit_of_digit_char: "0 \<le> d \<Longrightarrow> d < 10 \<Longrightarrow> digit_of (digit_char d) = Some d"
  by (simp add: digit_of_def digit_char_def Let_def)

lemma digits_value_append:
  "digits_value acc (xs @ ys) =
     (case digits_value acc xs of None \<Rightarrow> None | Some a \<Rightarrow> digits_value a ys)"
  by (induction xs arbitrary: acc) (auto split: option.splits)

lemma digits_value_digits: "0 \<le> n \<Longrightarrow> digits_value 0 (digits n) = Some n"
proof (induction n rule: digits.induct)
  case (1 n)
  show ?case
  proof (cases "n < 10")
    case True
    with "1.prems" show ?thesis
      by (subst digits.simps) (simp add: digit_of_digit_char)
  next
    case False
    then have "0 \<le> n div 10" by simp
    with "1.IH" False have "digits_value 0 (digits (n div 10)) = Some (n div 10)"
      by simp
    moreover have "0 \<le> n mod 10" "n mod 10 < 10" by simp_all
    ultimately show ?thesis
      using False
      by (subst digits.simps) (simp add: digits_value_append digit_of_digit_char)
  qed
qed

lemma digits_not_Nil: "digits n \<noteq> []"
  by (subst digits.simps) simp

lemma digit_of_sign: "digit_of CHR ''+'' = None" "digit_of CHR ''-'' = None"
  by (simp_all add: digit_of_def)

lemma digits_value_Some_hd:
  "digits_value acc (c # cs) = Some n \<Longrightarrow> c \<noteq> CHR ''+'' \<and> c \<noteq> CHR ''-''"
  by (auto simp: digit_of_sign)

lemma Atoi_digits:
  assumes "0 \<le> n" and "n < 2 ^ 63"
  shows "Atoi (digits n) = Inr n"
proof -
  obtain c cs where d: "digits n = c # cs"
    using digits_not_Nil[of n] by (cases "digits n") auto
  have v: "digits_value 0 (c # cs) = Some n"
    using digits_value_digits[OF assms(1)] d by simp
  from digits_value_Some_hd[OF v] v assms(2) show ?thesis
    unfolding Atoi_def d by (simp del: digits_value.simps)
qed

lemma Atoi_FormatInt:
  assumes "- (2 ^ 63) \<le> i" and "i < 2 ^ 63"
  shows "Atoi (FormatInt i) = Inr i"
proof (cases "i < 0")
  case False
  with assms Atoi_digits[of i] show ?thesis
    by (simp add: FormatInt_def)
next
  case True
  then have "digits_value 0 (digits (- i)) = Some (- i)"
    by (simp add: digits_value_digits)
  with True assms(1) show ?thesis
    by (simp add: FormatInt_def Atoi_def digits_not_Nil)
qed

lemma Value_Set_Value_String: "Value_Set v (Value_String v) = (None, v)"
proof (cases v)
  case (boolValue b)
  then show ?thesis by (simp add: ParseBool_FormatBool)
next
  case (Level l)
  have "- (2 ^ 31) \<le> sint l" "sint l < 2 ^ 31"
    using sint_ge[of l] sint_lt[of l] by simp_all
  then have "Atoi (FormatInt (sint l)) = Inr (sint l)"
    by (intro Atoi_FormatInt) simp_all
  with Level show ?thesis by simp
next
  case (stringValue s)
  then show ?thesis by simp
qed

lemma upper_lower_char: "upper_char (lower_char c) = upper_char c"
proof -
  have "of_char c < (256::nat)" by simp
  then show ?thesis
    by (auto simp: upper_char_def lower_char_def Let_def)
qed

lemma ToUpper_ToLower: "ToUpper (ToLower s) = ToUpper s"
  by (simp add: ToUpper_def ToLower_def upper_lower_char)

lemma ToUpper_append: "ToUpper (xs @ ys) = ToUpper xs @ ToUpper ys"
  by (simp add: ToUpper_def)

section \<open>Properties of flag sets and of the configuration store\<close>

lemma Lookup_Name: "Lookup fs n = Some a \<Longrightarrow> Name a = n"
  by (induction fs) (auto split: if_splits)

lemma Lookup_store:
  "Lookup (store fs a) n =
     (if n = Name a \<and> Lookup fs n \<noteq> None then Some a else Lookup fs n)"
  by (induction fs) auto

lemma Lookup_append:
  "Lookup (fs @ gs) n = (case Lookup fs n of Some a \<Rightarrow> Some a | None \<Rightarrow> Lookup gs n)"
  by (induction fs) auto

lemma find_viper_cong:
  assumes "override v k = override w k" and "pflags v k = pflags w k"
    and "automaticEnvApplied v = automaticEnvApplied w" and "envPrefix v = envPrefix w"
    and "envKeyReplacer v = envKeyReplacer w"
    and "config v k = config w k" and "defaults v k = defaults w k"
  shows "find_viper v b e k = find_viper w b e k"
  using assms
  by (simp add: find_viper_def getEnv_def envKey_def mergeWithEnvPrefix_def
           cong: option.case_cong if_cong)

lemma find_viper_override: "override v k = Some x \<Longrightarrow> find_viper v b e k = Some x"
  by (simp add: find_viper_def)

lemma find_viper_lower_layers:
  assumes "override v k = None" and "pflags v k = None"
    and "automaticEnvApplied v \<longrightarrow> e (envKey v (mergeWithEnvPrefix v k)) = []"
  shows "find_viper v b e k = (case config v k of Some x \<Rightarrow> Some x | None \<Rightarrow> defaults v k)"
  using assms by (simp add: find_viper_def getEnv_def)

lemma body_frame:
  "PersistentFlags (setFlagsUsingViper_body a st) = PersistentFlags st"
  "Getenv (setFlagsUsingViper_body a st) = Getenv st"
  "filesystem (setFlagsUsingViper_body a st) = filesystem st"
  "trace (setFlagsUsingViper_body a st) = trace st"
  "enableUpdateNotification (setFlagsUsingViper_body a st) = enableUpdateNotification st"
  "enableKubectlDownloadMsg (setFlagsUsingViper_body a st) = enableKubectlDownloadMsg st"
  "OutWriter (setFlagsUsingViper_body a st) = OutWriter st"
  "ErrWriter (setFlagsUsingViper_body a st) = ErrWriter st"
  "IsDebug (setFlagsUsingViper_body a st) = IsDebug st"
  by (simp_all add: setFlagsUsingViper_body_def Let_def)

lemma body_viper:
  "envPrefix (viper (setFlagsUsingViper_body a st)) = envPrefix (viper st)"
  "envKeyReplacer (viper (setFlagsUsingViper_body a st)) = envKeyReplacer (viper st)"
  "automaticEnvApplied (viper (setFlagsUsingViper_body a st)) = automaticEnvApplied (viper st)"
  "pflags (viper (setFlagsUsingViper_body a st)) = pflags (viper st)"
  "config (viper (setFlagsUsingViper_body a st)) = config (viper st)"
  "override (viper (setFlagsUsingViper_body a st)) k =
     (if Changed a \<and> k = ToLower (Name a) then Some (VString (Value_String (Value a)))
      else override (viper st) k)"
  "defaults (viper (setFlagsUsingViper_body a st)) k =
     (if k = ToLower (Name a) then Some (VString (DefValue a)) else defaults (viper st) k)"
  by (simp_all add: setFlagsUsingViper_body_def Let_def Set_def SetDefault_def)

lemma body_CommandLine:
  "CommandLine (setFlagsUsingViper_body a st) =
     store (CommandLine st)
       (a\<lparr>Value := snd (Value_Set (Value a)
                         (GetString (viper (setFlagsUsingViper_body a st))
                            (PersistentFlags st) (Getenv st) (Name a))),
          Changed := True\<rparr>)"
  by (simp add: setFlagsUsingViper_body_def Let_def)

lemma body_Lookup_other:
  "n \<noteq> Name a \<Longrightarrow>
   Lookup (CommandLine (setFlagsUsingViper_body a st)) n = Lookup (CommandLine st) n"
  by (simp add: body_CommandLine Lookup_store)

lemma body_GetString_cong:
  assumes "ToLower (Name b) \<noteq> ToLower (Name a)"
  shows "GetString (viper (setFlagsUsingViper_body a (setFlagsUsingViper_body b st)))
           (PersistentFlags st) (Getenv st) (Name a) =
         GetString (viper (setFlagsUsingViper_body a st))
           (PersistentFlags st) (Getenv st) (Name a)"
  unfolding GetString_def Get_def
  using assms
  by (subst find_viper_cong[where w = "viper (setFlagsUsingViper_body a st)"])
     (simp_all add: body_viper)

lemma loop_Lookup_other:
  "setFlagsUsingViper_loop ns st = Inr st1 \<Longrightarrow> n \<notin> set ns \<Longrightarrow>
   Lookup (CommandLine st1) n = Lookup (CommandLine st) n"
proof (induction ns arbitrary: st)
  case Nil
  then show ?case by simp
next
  case (Cons h rest)
  from Cons.prems obtain b where b: "Lookup (CommandLine st) h = Some b"
    and run: "setFlagsUsingViper_loop rest (setFlagsUsingViper_body b st) = Inr st1"
    by (auto split: option.splits)
  from Cons.prems(2) Lookup_Name[OF b] have "n \<noteq> Name b" by auto
  with Cons.IH[OF run] Cons.prems(2) show ?case
    by (simp add: body_Lookup_other)
qed

lemma loop_frame:
  assumes "setFlagsUsingViper_loop ns st = Inr st1"
  shows "PersistentFlags st1 = PersistentFlags st \<and> Getenv st1 = Getenv st \<and>
         filesystem st1 = filesystem st \<and> trace st1 = trace st \<and>
         enableUpdateNotification st1 = enableUpdateNotification st \<and>
         enableKubectlDownloadMsg st1 = enableKubectlDownloadMsg st \<and>
         OutWriter st1 = OutWriter st \<and> ErrWriter st1 = ErrWriter st \<and>
         IsDebug st1 = IsDebug st \<and>
         envPrefix (viper st1) = envPrefix (viper st) \<and>
         envKeyReplacer (viper st1) = envKeyReplacer (viper st) \<and>
         automaticEnvApplied (viper st1) = automaticEnvApplied (viper st) \<and>
         pflags (viper st1) = pflags (viper st) \<and>
         config (viper st1) = config (viper st)"
  using assms
proof (induction ns arbitrary: st)
  case Nil
  then show ?case by simp
next
  case (Cons h rest)
  from Cons.prems obtain b where
    run: "setFlagsUsingViper_loop rest (setFlagsUsingViper_body b st) = Inr st1"
    by (auto split: option.splits)
  from Cons.IH[OF run] show ?case
    by (simp add: body_frame body_viper)
qed

lemma loop_layers_other:
  assumes "setFlagsUsingViper_loop ns st = Inr st1" and "k \<notin> ToLower ` set ns"
  shows "override (viper st1) k = override (viper st) k \<and>
         defaults (viper st1) k = defaults (viper st) k"
  using assms
proof (induction ns arbitrary: st)
  case Nil
  then show ?case by simp
next
  case (Cons h rest)
  from Cons.prems obtain b where b: "Lookup (CommandLine st) h = Some b"
    and run: "setFlagsUsingViper_loop rest (setFlagsUsingViper_body b st) = Inr st1"
    by (auto split: option.splits)
  from Cons.prems(2) Lookup_Name[OF b] have "k \<noteq> ToLower (Name b)" "k \<notin> ToLower ` set rest"
    by auto
  with Cons.IH[OF run] show ?case
    by (simp add: body_viper)
qed

lemma loop_flag:
  assumes "setFlagsUsingViper_loop ns st = Inr st1" and "n \<in> set ns"
    and "distinct (map ToLower ns)" and "Lookup (CommandLine st) n = Some a"
  shows "Lookup (CommandLine st1) n = Lookup (CommandLine (setFlagsUsingViper_body a st)) n"
  using assms
proof (induction ns arbitrary: st)
  case Nil
  then show ?case by simp
next
  case (Cons h rest)
  from Cons.prems(1) obtain b where b: "Lookup (CommandLine st) h = Some b"
    and run: "setFlagsUsingViper_loop rest (setFlagsUsingViper_body b st) = Inr st1"
    by (auto split: option.splits)
  have hb: "Name b = h" by (rule Lookup_Name[OF b])
  have na: "Name a = n" by (rule Lookup_Name[OF Cons.prems(4)])
  show ?case
  proof (cases "n = h")
    case True
    with b Cons.prems(4) have "b = a" by simp
    moreover from True Cons.prems(3) have "n \<notin> set rest" by auto
    ultimately show ?thesis
      using loop_Lookup_other[OF run] by simp
  next
    case False
    with Cons.prems(2) have in_rest: "n \<in> set rest" by simp
    with Cons.prems(3) have low: "ToLower (Name b) \<noteq> ToLower (Name a)"
      by (auto simp: hb na)
    from False hb have keep:
      "Lookup (CommandLine (setFlagsUsingViper_body b st)) n = Some a"
      by (simp add: body_Lookup_other Cons.prems(4))
    from Cons.prems(3) have "distinct (map ToLower rest)" by simp
    from Cons.IH[OF run in_rest this keep]
    have "Lookup (CommandLine st1) n =
          Lookup (CommandLine (setFlagsUsingViper_body a (setFlagsUsingViper_body b st))) n" .
    also have "\<dots> = Lookup (CommandLine (setFlagsUsingViper_body a st)) n"
      using False hb na body_GetString_cong[OF low, of st]
      by (simp add: body_CommandLine[of a] body_frame Lookup_store body_Lookup_other Cons.prems(4))
    finally show ?thesis .
  qed
qed

lemma loop_panics:
  "\<exists>n\<in>set ns. Lookup (CommandLine st) n = None \<Longrightarrow>
   setFlagsUsingViper_loop ns st = Inl NilPointerDereference"
proof (induction ns arbitrary: st)
  case Nil
  then show ?case by simp
next
  case (Cons h rest)
  show ?case
  proof (cases "Lookup (CommandLine st) h")
    case None
    then show ?thesis by simp
  next
    case (Some b)
    with Cons.prems obtain n where n: "n \<in> set rest" "Lookup (CommandLine st) n = None"
      by auto
    then have "Lookup (CommandLine (setFlagsUsingViper_body b st)) n = None"
      by (simp add: body_CommandLine Lookup_store)
    with n(1) Cons.IH Some show ?thesis by auto
  qed
qed

lemma loop_returns:
  "\<forall>n\<in>set ns. Lookup (CommandLine st) n \<noteq> None \<Longrightarrow>
   \<exists>st1. setFlagsUsingViper_loop ns st = Inr st1"
proof (induction ns arbitrary: st)
  case Nil
  then show ?case by simp
next
  case (Cons h rest)
  then obtain b where b: "Lookup (CommandLine st) h = Some b" by auto
  from Cons.prems have "\<forall>n\<in>set rest. Lookup (CommandLine (setFlagsUsingViper_body b st)) n \<noteq> None"
    by (simp add: body_CommandLine Lookup_store)
  from Cons.IH[OF this] b show ?case by simp
qed

lemma distinct_whitelist: "distinct (map ToLower viperWhiteList)"
  by (simp add: viperWhiteList_def ToLower_def lower_char_def)

lemma body_Lookup_self:
  assumes "Lookup (CommandLine st) n = Some a"
  shows "Lookup (CommandLine (setFlagsUsingViper_body a st)) n =
     Some (a\<lparr>Value := snd (Value_Set (Value a)
                         (GetString (viper (setFlagsUsingViper_body a st))
                            (PersistentFlags st) (Getenv st) n)),
             Changed := True\<rparr>)"
  using assms Lookup_Name[OF assms]
  by (simp add: body_CommandLine Lookup_store)

lemma body_envKey:
  "mergeWithEnvPrefix (viper (setFlagsUsingViper_body a st)) k = mergeWithEnvPrefix (viper st) k"
  "envKey (viper (setFlagsUsingViper_body a st)) k = envKey (viper st) k"
  by (simp_all add: mergeWithEnvPrefix_def envKey_def body_viper)

lemma body_GetString_changed:
  "Changed a \<Longrightarrow>
   GetString (viper (setFlagsUsingViper_body a st)) pf env (Name a) = Value_String (Value a)"
  by (simp add: GetString_def Get_def find_viper_override body_viper)

lemma body_GetString_unchanged:
  assumes "\<not> Changed a"
    and "override (viper st) (ToLower (Name a)) = None"
    and "pflags (viper st) (ToLower (Name a)) = None"
    and "automaticEnvApplied (viper st) \<longrightarrow>
         env (envKey (viper st) (mergeWithEnvPrefix (viper st) (ToLower (Name a)))) = []"
  shows "GetString (viper (setFlagsUsingViper_body a st)) pf env (Name a) =
     (case config (viper st) (ToLower (Name a)) of
        Some x \<Rightarrow> ToString (Some x)
      | None \<Rightarrow> DefValue a)"
proof -
  let ?w = "viper (setFlagsUsingViper_body a st)"
  have "find_viper ?w pf env (ToLower (Name a)) =
        (case config ?w (ToLower (Name a)) of
           Some x \<Rightarrow> Some x
         | None \<Rightarrow> defaults ?w (ToLower (Name a)))"
    using assms
    by (intro find_viper_lower_layers)
       (simp_all add: body_viper body_envKey)
  then show ?thesis
    by (simp add: GetString_def Get_def body_viper split: option.splits)
qed

text \<open>
  C1. A whitelisted flag that was supplied on the command line (its \<open>Changed\<close> marker is
  set when \<open>setFlagsUsingViper\<close> starts) has, after \<open>setFlagsUsingViper\<close>, the value that
  was supplied, whatever the config file, the environment and the other layers of the
  store hold.
\<close>

theorem explicit_flag_wins:
  assumes "name \<in> set viperWhiteList"
    and "Lookup (CommandLine st) name = Some a"
    and "Changed a"
    and "setFlagsUsingViper st = Inr st1"
  shows "\<exists>a1. Lookup (CommandLine st1) name = Some a1 \<and> Value a1 = Value a \<and> Changed a1"
proof -
  have n: "Name a = name" by (rule Lookup_Name[OF assms(2)])
  have "Lookup (CommandLine st1) name =
        Lookup (CommandLine (setFlagsUsingViper_body a st)) name"
    using assms(4) assms(1) distinct_whitelist assms(2)
    unfolding setFlagsUsingViper_def by (rule loop_flag)
  also have "\<dots> = Some (a\<lparr>Value := snd (Value_Set (Value a) (Value_String (Value a))),
                           Changed := True\<rparr>)"
    using body_GetString_changed[OF assms(3), of st "PersistentFlags st" "Getenv st"]
    by (simp add: body_Lookup_self[OF assms(2)] n)
  finally show ?thesis
    by (simp add: Value_Set_Value_String)
qed

theorem explicit_flag_wins_witness:
  "''v'' \<in> set viperWhiteList \<and>
   Lookup (CommandLine
     ((supplied ''v'' ''5'' (started [''home'', ''.minikube''] (\<lambda>k. if k = ''MINIKUBE_V'' then ''7'' else []) []))
        \<lparr>viper := New\<lparr>envPrefix := ''MINIKUBE'', automaticEnvApplied := True,
                        config := [''v'' \<mapsto> VNumber 9]\<rparr>\<rparr>)) ''v'' =
     Some \<lparr>Name = ''v'', DefValue = ''0'', Value = Level 5, Changed = True\<rparr> \<and>
   (\<exists>st1. setFlagsUsingViper
      ((supplied ''v'' ''5'' (started [''home'', ''.minikube''] (\<lambda>k. if k = ''MINIKUBE_V'' then ''7'' else []) []))
        \<lparr>viper := New\<lparr>envPrefix := ''MINIKUBE'', automaticEnvApplied := True,
                        config := [''v'' \<mapsto> VNumber 9]\<rparr>\<rparr>) = Inr st1 \<and>
      (\<exists>a1. Lookup (CommandLine st1) ''v'' = Some a1 \<and> Value a1 = Level 5 \<and> Changed a1))"
proof -
  let ?st = "(supplied ''v'' ''5'' (started [''home'', ''.minikube''] (\<lambda>k. if k = ''MINIKUBE_V'' then ''7'' else []) []))
        \<lparr>viper := New\<lparr>envPrefix := ''MINIKUBE'', automaticEnvApplied := True,
                        config := [''v'' \<mapsto> VNumber 9]\<rparr>\<rparr>"
  have w: "''v'' \<in> set viperWhiteList"
    by (simp add: viperWhiteList_def)
  have f: "Lookup (CommandLine ?st) ''v'' =
           Some \<lparr>Name = ''v'', DefValue = ''0'', Value = Level 5, Changed = True\<rparr>"
    by code_simp
  have "\<forall>n\<in>set viperWhiteList. Lookup (CommandLine ?st) n \<noteq> None"
    by code_simp
  then obtain st1 where run: "setFlagsUsingViper ?st = Inr st1"
    unfolding setFlagsUsingViper_def using loop_returns by blast
  from explicit_flag_wins[OF w f _ run] w f run show ?thesis
    by simp
qed

section \<open>Properties of the start-up functions\<close>

lemma init_initial:
  "init Minipath glog_flags (initial env fs) =
     Inr ((initial env fs)
       \<lparr>PersistentFlags :=
          [\<lparr>Name = showLibmachineLogs, DefValue = ''false'', Value = boolValue False,
             Changed = False\<rparr>,
           \<lparr>Name = useVendoredDriver, DefValue = ''false'', Value = boolValue False,
             Changed = False\<rparr>],
        CommandLine :=
          [\<lparr>Name = ''log_dir'', DefValue = [],
             Value = stringValue (path_string (MakeMiniPath Minipath [''logs''])),
             Changed = False\<rparr>,
           \<lparr>Name = ''alsologtostderr'', DefValue = ''false'', Value = boolValue False,
             Changed = False\<rparr>,
           \<lparr>Name = ''v'', DefValue = ''0'', Value = Level 0, Changed = False\<rparr>],
        viper :=
          New\<lparr>pflags := [ToLower showLibmachineLogs \<mapsto> showLibmachineLogs,
                           ToLower useVendoredDriver \<mapsto> useVendoredDriver]\<rparr>\<rparr>)"
proof -
  have "digits 0 = ''0''"
    by code_simp
  then show ?thesis
    by (simp add: init_def initial_def glog_flags_def Bool_def PFlagFromGoFlag_def
        FormatBool_def FormatInt_def Let_def New_def)
qed

lemma setupViper_unfold:
  "setupViper st =
     setFlagsUsingViper
       (st\<lparr>viper := (viper st)
          \<lparr>envPrefix := MinikubeEnvPrefix,
           envKeyReplacer := Some (NewReplacer CHR ''-'' CHR ''_''),
           automaticEnvApplied := True,
           defaults := (defaults (viper st))
             (ToLower WantUpdateNotification \<mapsto> VBool True,
              ToLower ReminderWaitPeriodInHours \<mapsto> VNumber 24,
              ToLower WantReportError \<mapsto> VBool False,
              ToLower WantReportErrorPrompt \<mapsto> VBool True,
              ToLower WantKubectlDownloadMsg \<mapsto> VBool True)\<rparr>\<rparr>)"
  by (simp add: setupViper_def Let_def SetEnvPrefix_def SetEnvKeyReplacer_def AutomaticEnv_def
      SetDefault_def MinikubeEnvPrefix_def)

lemma setupViper_panics:
  "\<exists>n\<in>set viperWhiteList. Lookup (CommandLine st) n = None \<Longrightarrow>
   setupViper st = Inl NilPointerDereference"
  unfolding setupViper_unfold setFlagsUsingViper_def
  by (rule loop_panics) simp

lemma initConfig_unfold:
  "initConfig Minipath file st =
     setupViper
       (st\<lparr>viper := snd (ReadInConfig (viper st) file),
           trace := trace st @
             (case fst (ReadInConfig (viper st) file) of
                None \<Rightarrow> []
              | Some e \<Rightarrow>
                  [Warningf ''Error reading config file at %s: %s''
                     [path_string (ConfigFile Minipath), config_error_Error e]])\<rparr>)"
  by (cases "ReadInConfig (viper st) file") (simp add: initConfig_def Let_def split: option.splits)

text \<open>
  C2. Every name of the whitelist is the name of a registered flag once \<open>init\<close> has put the
  flags of the logging library into the command line; and in any state in which some name of
  the whitelist has no registered flag, \<open>setFlagsUsingViper\<close> panics on the nil pointer, and
  so does \<open>initConfig\<close>, which runs it at start-up: the entry is not skipped.
\<close>

theorem whitelist_integrity:
  "(\<exists>st. init Minipath glog_flags (initial env fs) = Inr st \<and>
         (\<forall>n\<in>set viperWhiteList. \<exists>a. Lookup (CommandLine st) n = Some a \<and> Name a = n)) \<and>
   ((\<exists>n\<in>set viperWhiteList. Lookup (CommandLine st0) n = None) \<longrightarrow>
      setFlagsUsingViper st0 = Inl NilPointerDereference \<and>
      initConfig Minipath file st0 = Inl NilPointerDereference)"
proof (intro conjI impI)
  show "\<exists>st. init Minipath glog_flags (initial env fs) = Inr st \<and>
         (\<forall>n\<in>set viperWhiteList. \<exists>a. Lookup (CommandLine st) n = Some a \<and> Name a = n)"
    by (simp add: init_initial viperWhiteList_def)
next
  assume "\<exists>n\<in>set viperWhiteList. Lookup (CommandLine st0) n = None"
  then show "setFlagsUsingViper st0 = Inl NilPointerDereference"
    unfolding setFlagsUsingViper_def by (rule loop_panics)
next
  assume "\<exists>n\<in>set viperWhiteList. Lookup (CommandLine st0) n = None"
  then show "initConfig Minipath file st0 = Inl NilPointerDereference"
    unfolding initConfig_unfold by (intro setupViper_panics) simp
qed

theorem whitelist_integrity_witness:
  "(\<exists>n\<in>set viperWhiteList.
      Lookup (CommandLine
        ((initial (\<lambda>k. []) [])
           \<lparr>CommandLine := AddGoFlagSet [] [GoFlag ''log_dir'' (stringValue []), GoFlag ''v'' (Level 0)]\<rparr>))
        n = None) \<and>
   setFlagsUsingViper
     ((initial (\<lambda>k. []) [])
        \<lparr>CommandLine := AddGoFlagSet [] [GoFlag ''log_dir'' (stringValue []), GoFlag ''v'' (Level 0)]\<rparr>) =
     Inl NilPointerDereference \<and>
   initConfig [''home'', ''.minikube''] (Json [])
     ((initial (\<lambda>k. []) [])
        \<lparr>CommandLine := AddGoFlagSet [] [GoFlag ''log_dir'' (stringValue []), GoFlag ''v'' (Level 0)]\<rparr>) =
     Inl NilPointerDereference"
proof -
  let ?st = "(initial (\<lambda>k. []) [])
        \<lparr>CommandLine := AddGoFlagSet [] [GoFlag ''log_dir'' (stringValue []), GoFlag ''v'' (Level 0)]\<rparr>"
  have missing: "\<exists>n\<in>set viperWhiteList. Lookup (CommandLine ?st) n = None"
    by (simp add: viperWhiteList_def PFlagFromGoFlag_def)
  from whitelist_integrity[of "[''home'', ''.minikube'']" _ _ ?st "Json []"] missing
  show ?thesis by blast
qed

lemma setupViper_frame:
  assumes "setupViper st = Inr st1"
  shows "envPrefix (viper st1) = MinikubeEnvPrefix"
    and "envKeyReplacer (viper st1) = Some (NewReplacer CHR ''-'' CHR ''_'')"
    and "automaticEnvApplied (viper st1)"
    and "pflags (viper st1) = pflags (viper st)"
    and "config (viper st1) = config (viper st)"
    and "PersistentFlags st1 = PersistentFlags st"
    and "Getenv st1 = Getenv st"
    and "trace st1 = trace st"
    and "filesystem st1 = filesystem st"
  using loop_frame[OF assms[unfolded setupViper_unfold setFlagsUsingViper_def]]
  by simp_all

lemma envKey_after_setup:
  assumes "envPrefix v = MinikubeEnvPrefix"
    and "envKeyReplacer v = Some (NewReplacer CHR ''-'' CHR ''_'')"
  shows "envKey v (mergeWithEnvPrefix v (ToLower key)) = spec_env_name key"
proof -
  have "ToUpper MinikubeEnvPrefix = MinikubeEnvPrefix"
    by (simp add: MinikubeEnvPrefix_def ToUpper_def upper_char_def)
  moreover have "ToUpper (''_'' @ ToLower key) = ''_'' @ ToUpper key"
    unfolding ToUpper_append ToUpper_ToLower by (simp add: ToUpper_def upper_char_def)
  ultimately have "ToUpper (MinikubeEnvPrefix @ ''_'' @ ToLower key) =
             MinikubeEnvPrefix @ ''_'' @ ToUpper key"
    by (simp only: ToUpper_append)
  then show ?thesis
    using assms
    by (simp add: envKey_def mergeWithEnvPrefix_def spec_env_name_def)
       (simp add: MinikubeEnvPrefix_def)
qed

lemma setupViper_returns:
  assumes "\<forall>n\<in>set viperWhiteList. Lookup (CommandLine st) n \<noteq> None"
  shows "\<exists>st1. setupViper st = Inr st1"
  unfolding setupViper_unfold setFlagsUsingViper_def
  by (rule loop_returns) (use assms in simp)

lemma initConfig_returns:
  assumes "\<forall>n\<in>set viperWhiteList. Lookup (CommandLine st) n \<noteq> None"
  shows "\<exists>st1. initConfig Minipath content st = Inr st1"
  unfolding initConfig_unfold
  by (rule setupViper_returns) (use assms in simp)

lemma started_eq:
  "started Minipath env fs =
     (initial env fs)
       \<lparr>PersistentFlags :=
          [\<lparr>Name = showLibmachineLogs, DefValue = ''false'', Value = boolValue False,
             Changed = False\<rparr>,
           \<lparr>Name = useVendoredDriver, DefValue = ''false'', Value = boolValue False,
             Changed = False\<rparr>],
        CommandLine :=
          [\<lparr>Name = ''log_dir'', DefValue = [],
             Value = stringValue (path_string (MakeMiniPath Minipath [''logs''])),
             Changed = False\<rparr>,
           \<lparr>Name = ''alsologtostderr'', DefValue = ''false'', Value = boolValue False,
             Changed = False\<rparr>,
           \<lparr>Name = ''v'', DefValue = ''0'', Value = Level 0, Changed = False\<rparr>],
        viper :=
          New\<lparr>pflags := [ToLower showLibmachineLogs \<mapsto> showLibmachineLogs,
                           ToLower useVendoredDriver \<mapsto> useVendoredDriver]\<rparr>\<rparr>"
  by (simp add: started_def init_initial)

lemma started_registered:
  "\<forall>n\<in>set viperWhiteList. Lookup (CommandLine (started Minipath env fs)) n \<noteq> None"
  by (simp add: started_eq viperWhiteList_def)

lemma started_fields:
  "Getenv (started Minipath env fs) = env"
  "filesystem (started Minipath env fs) = fs"
  "trace (started Minipath env fs) = []"
  "override (viper (started Minipath env fs)) = Map.empty"
  "config (viper (started Minipath env fs)) = Map.empty"
  "pflags (viper (started Minipath env fs)) =
     [ToLower showLibmachineLogs \<mapsto> showLibmachineLogs,
      ToLower useVendoredDriver \<mapsto> useVendoredDriver]"
  by (simp_all add: started_eq initial_def New_def)

lemma lower_names:
  "ToLower ''v'' = ''v''"
  "ToLower ''alsologtostderr'' = ''alsologtostderr''"
  "ToLower ''log_dir'' = ''log_dir''"
  "ToLower showLibmachineLogs = ''show-libmachine-logs''"
  "ToLower useVendoredDriver = ''use-vendored-driver''"
  "ToLower WantUpdateNotification = ''wantupdatenotification''"
  "ToLower ReminderWaitPeriodInHours = ''reminderwaitperiodinhours''"
  "ToLower WantReportError = ''wantreporterror''"
  "ToLower WantReportErrorPrompt = ''wantreporterrorprompt''"
  "ToLower WantKubectlDownloadMsg = ''wantkubectldownloadmsg''"
  by code_simp+

text \<open>
  C5. Once \<open>setupViper\<close> has set the prefix and the replacer, the name of the environment
  variable that the store consults for a key is the prefix, then \<open>_\<close>, then the key in
  upper case with every \<open>-\<close> replaced by \<open>_\<close> (the formula \<open>spec_env_name\<close> of section 4.3);
  and a non-empty value of that variable is what a lookup of the key returns, unless a call
  of \<open>Set\<close> or a changed bound flag precedes it.
\<close>

theorem env_name_mangling:
  assumes "setupViper st = Inr st1"
  shows "envKey (viper st1) (mergeWithEnvPrefix (viper st1) (ToLower key)) = spec_env_name key \<and>
         (override (viper st1) (ToLower key) = None \<and> pflags (viper st1) (ToLower key) = None \<and>
          Getenv st1 (spec_env_name key) \<noteq> [] \<longrightarrow>
          Get (viper st1) (PersistentFlags st1) (Getenv st1) key =
            Some (VString (Getenv st1 (spec_env_name key))))"
proof -
  have name: "envKey (viper st1) (mergeWithEnvPrefix (viper st1) (ToLower key)) = spec_env_name key"
    using setupViper_frame(1,2)[OF assms] by (rule envKey_after_setup)
  then show ?thesis
    using setupViper_frame(3)[OF assms]
    by (simp add: Get_def find_viper_def getEnv_def)
qed

theorem env_name_mangling_witness:
  "spec_env_name ''log-dir'' = ''MINIKUBE_LOG_DIR'' \<and>
   (\<exists>st1. setupViper (started [''home'', ''.minikube''] (\<lambda>k. if k = ''MINIKUBE_LOG-DIR'' then ''/a'' else if k = ''MINIKUBE_LOG_DIR'' then ''/b'' else []) []) = Inr st1 \<and>
      envKey (viper st1) (mergeWithEnvPrefix (viper st1) (ToLower ''log-dir'')) = ''MINIKUBE_LOG_DIR'' \<and>
      Get (viper st1) (PersistentFlags st1) (Getenv st1) ''log-dir'' = Some (VString ''/b''))"
proof -
  let ?env = "\<lambda>k. if k = ''MINIKUBE_LOG-DIR'' then ''/a'' else if k = ''MINIKUBE_LOG_DIR'' then ''/b'' else []"
  let ?st = "started [''home'', ''.minikube''] ?env []"
  obtain st1 where run: "setupViper ?st = Inr st1"
    using setupViper_returns[OF started_registered] by blast
  have sp: "spec_env_name ''log-dir'' = ''MINIKUBE_LOG_DIR''"
    by code_simp
  have low: "ToLower ''log-dir'' = ''log-dir''"
    by code_simp
  have env: "Getenv st1 = ?env"
    using setupViper_frame(7)[OF run] by (simp add: started_fields)
  have pf: "pflags (viper st1) (ToLower ''log-dir'') = None"
    using setupViper_frame(4)[OF run]
    by (simp add: started_fields lower_names low)
  have "ToLower ''log-dir'' \<notin> ToLower ` set viperWhiteList"
    by (simp add: viperWhiteList_def lower_names low)
  from loop_layers_other[OF run[unfolded setupViper_unfold setFlagsUsingViper_def] this]
  have ov: "override (viper st1) (ToLower ''log-dir'') = None"
    by (simp add: started_fields)
  from env_name_mangling[OF run, of "''log-dir''"] sp env pf ov run show ?thesis
    by auto
qed

section \<open>Properties of the pre-run hook\<close>

lemma MkdirAll_each_append:
  "MkdirAll_each (ps @ qs) fs =
     (case MkdirAll_each ps fs of
        (Some e, fs1) \<Rightarrow> (Some e, fs1)
      | (None, fs1) \<Rightarrow> MkdirAll_each qs fs1)"
  by (induction ps arbitrary: fs) (auto split: prod.splits option.splits)

lemma PersistentPreRun_exits:
  assumes "MkdirAll_each (dirs Minipath) (filesystem st) = (Some err, fs1)"
  shows "PersistentPreRun Minipath st =
     Exited 1
       (st\<lparr>filesystem := fs1,
           trace := trace st @
             [Exitf ''Error creating minikube directory: %s'' [PathError_Error err]]\<rparr>)"
  using assms by (simp add: PersistentPreRun_def)

lemma PersistentPreRun_returns:
  assumes "MkdirAll_each (dirs Minipath) (filesystem st) = (None, fs1)"
  shows "\<exists>st1. PersistentPreRun Minipath st = Returned st1"
  using assms by (simp add: PersistentPreRun_def Let_def)

lemma PersistentPreRun_Returned:
  assumes "PersistentPreRun Minipath st = Returned st1"
  shows "\<exists>fs1. MkdirAll_each (dirs Minipath) (filesystem st) = (None, fs1) \<and>
     st1 = st
       \<lparr>filesystem := fs1,
        OutWriter := (if verbosity st < 3 then Discard else OutWriter st),
        ErrWriter := (if verbosity st < 3 then Discard else ErrWriter st),
        IsDebug := (if 7 \<le> verbosity st then True else IsDebug st),
        trace := trace st @
          (if GetBool (viper st) (PersistentFlags st) (Getenv st) showLibmachineLogs
           then [Println deprecation_text] else []) @
          [GetClientType] @
          (if enableUpdateNotification st then [MaybePrintUpdateTextFromGithub] else []) @
          (if enableKubectlDownloadMsg st then [MaybePrintKubectlDownloadMsg] else [])\<rparr>"
proof (cases "MkdirAll_each (dirs Minipath) (filesystem st)")
  case (Pair e fs1)
  show ?thesis
  proof (cases e)
    case None
    with Pair assms show ?thesis
      by (auto simp: PersistentPreRun_def Let_def V_def verbosity_def)
  next
    case (Some err)
    with Pair assms show ?thesis
      by (simp add: PersistentPreRun_def)
  qed
qed

text \<open>
  C7. If, in the loop of the pre-run hook, \<open>MkdirAll\<close> fails on some path of the list (the
  paths before it having been created), the hook ends the process at once: with status 1,
  which is not zero, and with the message of \<open>glog.Exitf\<close> as the only thing added to the
  trace. No deprecation notice is printed, the writers and the debug switch of the libmachine
  logger are as before, and neither notification check is called.
\<close>

theorem mkdir_failure_is_fatal:
  assumes "dirs Minipath = pre @ p # post"
    and "MkdirAll_each pre (filesystem st) = (None, fs0)"
    and "MkdirAll fs0 p = (Some err, fs1)"
  shows "\<exists>st1. PersistentPreRun Minipath st = Exited 1 st1 \<and>
           trace st1 = trace st @
             [Exitf ''Error creating minikube directory: %s'' [PathError_Error err]] \<and>
           OutWriter st1 = OutWriter st \<and> ErrWriter st1 = ErrWriter st \<and>
           IsDebug st1 = IsDebug st"
proof -
  have "MkdirAll_each (dirs Minipath) (filesystem st) = (Some err, fs1)"
    using assms by (simp add: MkdirAll_each_append)
  from PersistentPreRun_exits[OF this] show ?thesis
    by simp
qed

theorem mkdir_failure_is_fatal_witness:
  "dirs [''home'', ''.minikube''] =
     [[''home'', ''.minikube''], [''home'', ''.minikube'', ''certs''],
      [''home'', ''.minikube'', ''machines'']] @
     [''home'', ''.minikube'', ''cache''] #
     [[''home'', ''.minikube'', ''cache'', ''iso''],
      [''home'', ''.minikube'', ''cache'', ''localkube''],
      [''home'', ''.minikube'', ''config''], [''home'', ''.minikube'', ''addons''],
      [''home'', ''.minikube'', ''logs'']] \<and>
   (\<exists>st1. PersistentPreRun [''home'', ''.minikube'']
       (started [''home'', ''.minikube''] (\<lambda>k. [])
          [([''home'', ''.minikube'', ''cache''], File), ([''home'', ''.minikube''], Dir),
           ([''home''], Dir)]) = Exited 1 st1 \<and>
      trace st1 =
        [Exitf ''Error creating minikube directory: %s''
           [''mkdir /home/.minikube/cache: not a directory'']] \<and>
      OutWriter st1 = Stdout \<and> ErrWriter st1 = Stderr \<and> \<not> IsDebug st1)"
proof -
  let ?fs = "[([''home'', ''.minikube'', ''cache''], File), ([''home'', ''.minikube''], Dir),
           ([''home''], Dir)]"
  let ?st = "started [''home'', ''.minikube''] (\<lambda>k. []) ?fs"
  have d: "dirs [''home'', ''.minikube''] =
     [[''home'', ''.minikube''], [''home'', ''.minikube'', ''certs''],
      [''home'', ''.minikube'', ''machines'']] @
     [''home'', ''.minikube'', ''cache''] #
     [[''home'', ''.minikube'', ''cache'', ''iso''],
      [''home'', ''.minikube'', ''cache'', ''localkube''],
      [''home'', ''.minikube'', ''config''], [''home'', ''.minikube'', ''addons''],
      [''home'', ''.minikube'', ''logs'']]"
    by (simp add: dirs_def MakeMiniPath_def)
  have "MkdirAll_each
          [[''home'', ''.minikube''], [''home'', ''.minikube'', ''certs''],
           [''home'', ''.minikube'', ''machines'']] ?fs =
        (None, ([''home'', ''.minikube'', ''machines''], Dir) #
               ([''home'', ''.minikube'', ''certs''], Dir) # ?fs)"
    by code_simp
  then have before: "MkdirAll_each
          [[''home'', ''.minikube''], [''home'', ''.minikube'', ''certs''],
           [''home'', ''.minikube'', ''machines'']] (filesystem ?st) =
        (None, ([''home'', ''.minikube'', ''machines''], Dir) #
               ([''home'', ''.minikube'', ''certs''], Dir) # ?fs)"
    by (simp only: started_fields)
  have fails: "MkdirAll (([''home'', ''.minikube'', ''machines''], Dir) #
               ([''home'', ''.minikube'', ''certs''], Dir) # ?fs) [''home'', ''.minikube'', ''cache''] =
        (Some (PathError ''mkdir'' [''home'', ''.minikube'', ''cache''] ENOTDIR),
         ([''home'', ''.minikube'', ''machines''], Dir) #
               ([''home'', ''.minikube'', ''certs''], Dir) # ?fs)"
    by code_simp
  have msg: "PathError_Error (PathError ''mkdir'' [''home'', ''.minikube'', ''cache''] ENOTDIR) =
        ''mkdir /home/.minikube/cache: not a directory''"
    by code_simp
  from mkdir_failure_is_fatal[OF d before fails] d msg show ?thesis
    by (simp add: started_fields started_eq initial_def)
qed

text \<open>
  C8. When the pre-run hook returns, the libmachine logger is set after the verbosity (the
  value of the flag \<open>v\<close>): below 3 its output and error writers are the discarding writer;
  from 3 on they are left as they were; from 7 on the debug switch is on as well, and below
  7 it is left as it was.
\<close>

theorem libmachine_logging_gated:
  assumes "PersistentPreRun Minipath st = Returned st1"
  shows "(verbosity st < 3 \<longrightarrow> OutWriter st1 = Discard \<and> ErrWriter st1 = Discard) \<and>
         (3 \<le> verbosity st \<longrightarrow> OutWriter st1 = OutWriter st \<and> ErrWriter st1 = ErrWriter st) \<and>
         (7 \<le> verbosity st \<longrightarrow> IsDebug st1) \<and>
         (verbosity st < 7 \<longrightarrow> IsDebug st1 = IsDebug st)"
  using PersistentPreRun_Returned[OF assms] by auto

theorem libmachine_logging_gated_witness:
  "\<exists>st0 st1.
     initConfig [''home'', ''.minikube''] (Json [])
       (started [''home'', ''.minikube''] (\<lambda>k. if k = ''MINIKUBE_V'' then ''3'' else []) []) = Inr st0 \<and>
     verbosity st0 = 3 \<and>
     PersistentPreRun [''home'', ''.minikube''] st0 = Returned st1 \<and>
     OutWriter st1 = Stdout \<and> ErrWriter st1 = Stderr \<and> \<not> IsDebug st1"
proof -
  let ?mp = "[''home'', ''.minikube'']"
  let ?st = "started ?mp (\<lambda>k. if k = ''MINIKUBE_V'' then ''3'' else []) []"
  obtain st0 where run: "initConfig ?mp (Json []) ?st = Inr st0"
    using initConfig_returns[OF started_registered] by blast
  have "case initConfig ?mp (Json []) ?st of Inr s \<Rightarrow> verbosity s = 3 | Inl _ \<Rightarrow> False"
    by code_simp
  with run have v: "verbosity st0 = 3" by simp
  have same: "filesystem st0 = []" "OutWriter st0 = Stdout" "ErrWriter st0 = Stderr"
    "\<not> IsDebug st0"
    using loop_frame[OF run[unfolded initConfig_unfold setupViper_unfold setFlagsUsingViper_def]]
    by (simp_all add: started_eq initial_def)
  have "fst (MkdirAll_each (dirs ?mp) []) = None"
    by code_simp
  then have "\<exists>fs1. MkdirAll_each (dirs ?mp) [] = (None, fs1)"
    by (cases "MkdirAll_each (dirs ?mp) []") simp
  then obtain st1 where hook: "PersistentPreRun ?mp st0 = Returned st1"
    using PersistentPreRun_returns[of ?mp st0] same(1) by auto
  from libmachine_logging_gated[OF hook] v same run hook show ?thesis
    by auto
qed

text \<open>
  C3, as the claim states it, fails: with a config file that sets both "want update
  notification" and "want kubectl download message" to false, the store resolves both keys
  to false, and yet the pre-run hook calls both checks.
\<close>

theorem notification_checks_counterexample:
  "(case initConfig [''home'', ''.minikube'']
           (Json [(WantUpdateNotification, VBool False), (WantKubectlDownloadMsg, VBool False)])
           (started [''home'', ''.minikube''] (\<lambda>k. []) []) of
      Inl _ \<Rightarrow> False
    | Inr st0 \<Rightarrow>
        \<not> GetBool (viper st0) (PersistentFlags st0) (Getenv st0) WantUpdateNotification \<and>
        \<not> GetBool (viper st0) (PersistentFlags st0) (Getenv st0) WantKubectlDownloadMsg \<and>
        (case PersistentPreRun [''home'', ''.minikube''] st0 of
           Exited _ _ \<Rightarrow> False
         | Returned st1 \<Rightarrow>
             MaybePrintUpdateTextFromGithub \<in> set (trace st1) \<and>
             MaybePrintKubectlDownloadMsg \<in> set (trace st1)))"
  by code_simp

text \<open>
  C3, amended. The pre-run hook calls the update-notification check exactly when the package
  variable \<open>enableUpdateNotification\<close> is true and the directories could be made, and the
  kubectl-download-message check exactly when \<open>enableKubectlDownloadMsg\<close> is true and the
  directories could be made. root.go initialises both variables to true (lines 57-58); the
  hook does not read the configuration values of the store for this.
\<close>

theorem notification_checks_gated_by_variables:
  "\<exists>evs. trace (case PersistentPreRun Minipath st of Exited _ s \<Rightarrow> s | Returned s \<Rightarrow> s) =
           trace st @ evs \<and>
         (MaybePrintUpdateTextFromGithub \<in> set evs \<longleftrightarrow>
            enableUpdateNotification st \<and>
            fst (MkdirAll_each (dirs Minipath) (filesystem st)) = None) \<and>
         (MaybePrintKubectlDownloadMsg \<in> set evs \<longleftrightarrow>
            enableKubectlDownloadMsg st \<and>
            fst (MkdirAll_each (dirs Minipath) (filesystem st)) = None) \<and>
         enableUpdateNotification (initial env fs) \<and> enableKubectlDownloadMsg (initial env fs)"
proof (cases "MkdirAll_each (dirs Minipath) (filesystem st)")
  case (Pair e fs1)
  show ?thesis
  proof (cases e)
    case None
    with Pair obtain st1 where r: "PersistentPreRun Minipath st = Returned st1"
      using PersistentPreRun_returns by blast
    from PersistentPreRun_Returned[OF r] Pair None r show ?thesis
      by (auto simp: initial_def)
  next
    case (Some err)
    with Pair PersistentPreRun_exits[of Minipath st err fs1] show ?thesis
      by (simp add: initial_def)
  qed
qed

theorem notification_checks_gated_by_variables_witness:
  "\<exists>evs. trace (case PersistentPreRun [''home'', ''.minikube'']
                       (started [''home'', ''.minikube''] (\<lambda>k. []) []) of
                  Exited _ s \<Rightarrow> s
                | Returned s \<Rightarrow> s) = evs \<and>
         MaybePrintUpdateTextFromGithub \<in> set evs \<and>
         MaybePrintKubectlDownloadMsg \<in> set evs"
proof -
  let ?mp = "[''home'', ''.minikube'']"
  let ?st = "started ?mp (\<lambda>k. []) []"
  have made: "fst (MkdirAll_each (dirs ?mp) (filesystem ?st)) = None"
    unfolding started_fields by code_simp
  have on: "enableUpdateNotification ?st" "enableKubectlDownloadMsg ?st"
    by (simp_all add: started_eq initial_def)
  from notification_checks_gated_by_variables[of ?mp ?st] made on show ?thesis
    by (auto simp: started_fields)
qed

section \<open>Properties of the resolution at start-up\<close>

lemma Atoi_Level: "Atoi (FormatInt (sint (l :: 32 word))) = Inr (sint l)"
proof -
  have "- (2 ^ 31) \<le> sint l" "sint l < 2 ^ 31"
    using sint_ge[of l] sint_lt[of l] by simp_all
  then show ?thesis
    by (intro Atoi_FormatInt) simp_all
qed

lemma Value_Set_same_kind: "same_kind w v \<Longrightarrow> Value_Set v (Value_String w) = (None, w)"
  by (cases v; cases w) (simp_all add: Atoi_Level ParseBool_FormatBool)

lemma Level_in_range:
  assumes "- (2 ^ 31) \<le> n" and "n < 2 ^ 31"
  shows "sint (word_of_int n :: 32 word) = n"
  using assms by (simp add: sint_sbintrunc' signed_take_bit_int_eq_self)

lemma Level_wraps: "sint (word_of_int n :: 32 word) = (n + 2 ^ 31) mod 2 ^ 32 - 2 ^ 31"
  using int_word_sint[of n, where ?'a = 32] by simp

lemma Value_Set_explicit:
  "snd (Value_Set v s) =
     (case v of
        stringValue old \<Rightarrow> stringValue s
      | boolValue old \<Rightarrow> boolValue (s \<in> set [''1'', ''t'', ''T'', ''TRUE'', ''true'', ''True''])
      | Level old \<Rightarrow>
          (case Atoi s of Inl e \<Rightarrow> Level old | Inr n \<Rightarrow> Level (word_of_int n)))"
  by (cases v) (auto simp: ParseBool_def split: sum.splits)

lemma whitelist_not_bound:
  assumes "name \<in> set viperWhiteList"
  shows "pflags (viper (started Minipath env fs)) (ToLower name) = None"
  using assms by (auto simp: viperWhiteList_def started_fields lower_names)

lemma initConfig_flag:
  assumes run: "initConfig Minipath content st = Inr st1"
    and name: "name \<in> set viperWhiteList"
    and a: "Lookup (CommandLine st) name = Some a"
    and unchanged: "\<not> Changed a"
    and no_set: "override (viper st) (ToLower name) = None"
    and unbound: "pflags (viper st) (ToLower name) = None"
    and no_env: "Getenv st (spec_env_name name) = []"
  shows "Lookup (CommandLine st1) name =
     Some (a\<lparr>Value :=
               snd (Value_Set (Value a)
                      (case config (snd (ReadInConfig (viper st) content)) (ToLower name) of
                         Some x \<Rightarrow> ToString (Some x)
                       | None \<Rightarrow> DefValue a)),
             Changed := True\<rparr>)"
proof -
  define pre where "pre =
    st\<lparr>viper := snd (ReadInConfig (viper st) content),
       trace := trace st @
         (case fst (ReadInConfig (viper st) content) of
            None \<Rightarrow> []
          | Some e \<Rightarrow>
              [Warningf ''Error reading config file at %s: %s''
                 [path_string (ConfigFile Minipath), config_error_Error e]])\<rparr>"
  define entry where "entry =
    pre\<lparr>viper := (viper pre)
          \<lparr>envPrefix := MinikubeEnvPrefix,
           envKeyReplacer := Some (NewReplacer CHR ''-'' CHR ''_''),
           automaticEnvApplied := True,
           defaults := (defaults (viper pre))
             (ToLower WantUpdateNotification \<mapsto> VBool True,
              ToLower ReminderWaitPeriodInHours \<mapsto> VNumber 24,
              ToLower WantReportError \<mapsto> VBool False,
              ToLower WantReportErrorPrompt \<mapsto> VBool True,
              ToLower WantKubectlDownloadMsg \<mapsto> VBool True)\<rparr>\<rparr>"
  have loop: "setFlagsUsingViper_loop viperWhiteList entry = Inr st1"
    using run
    unfolding initConfig_unfold setupViper_unfold setFlagsUsingViper_def entry_def pre_def .
  have rd: "override (snd (ReadInConfig (viper st) content)) = override (viper st)"
    "pflags (snd (ReadInConfig (viper st) content)) = pflags (viper st)"
    by (simp_all add: ReadInConfig_def split: config_file.splits)
  have n: "Name a = name" by (rule Lookup_Name[OF a])
  have a': "Lookup (CommandLine entry) name = Some a"
    using a by (simp add: entry_def pre_def)
  have key: "envKey (viper entry) (mergeWithEnvPrefix (viper entry) (ToLower (Name a))) =
             spec_env_name name"
    unfolding n by (rule envKey_after_setup) (simp_all add: entry_def)
  have "GetString (viper (setFlagsUsingViper_body a entry)) (PersistentFlags entry)
          (Getenv entry) (Name a) =
        (case config (viper entry) (ToLower (Name a)) of
           Some x \<Rightarrow> ToString (Some x)
         | None \<Rightarrow> DefValue a)"
  proof (rule body_GetString_unchanged[OF unchanged])
    show "override (viper entry) (ToLower (Name a)) = None"
      using no_set by (simp add: entry_def pre_def rd n)
    show "pflags (viper entry) (ToLower (Name a)) = None"
      using unbound by (simp add: entry_def pre_def rd n)
    show "automaticEnvApplied (viper entry) \<longrightarrow>
          Getenv entry (envKey (viper entry) (mergeWithEnvPrefix (viper entry) (ToLower (Name a)))) = []"
      unfolding key using no_env by (simp add: entry_def pre_def)
  qed
  moreover have "config (viper entry) = config (snd (ReadInConfig (viper st) content))"
    by (simp add: entry_def pre_def)
  moreover have "Lookup (CommandLine st1) name =
        Lookup (CommandLine (setFlagsUsingViper_body a entry)) name"
    using loop name distinct_whitelist a' by (rule loop_flag)
  ultimately show ?thesis
    by (simp add: body_Lookup_self[OF a'] n)
qed

text \<open>
  C4, as the claim states it, fails: with the config file \<open>{"v": "high"}\<close>, the flag \<open>v\<close> not
  supplied and no environment variable, the value written back into the flag is the level
  0 it had before, whose text is not the config-file value.
\<close>

theorem config_fallback_counterexample:
  "(case initConfig [''home'', ''.minikube''] (Json [(''v'', VString ''high'')])
           (started [''home'', ''.minikube''] (\<lambda>k. []) []) of
      Inl _ \<Rightarrow> False
    | Inr st1 \<Rightarrow>
        (case Lookup (CommandLine st1) ''v'' of
           None \<Rightarrow> False
         | Some a1 \<Rightarrow> Value a1 = Level 0 \<and> Value_String (Value a1) \<noteq> ''high''))"
  by code_simp

text \<open>
  C4, amended. Take a whitelisted flag that was not supplied on the command line, with no
  call of \<open>Set\<close>, no bound flag and no (non-empty) environment variable for its name. If the
  config file has a value for the name, \<open>initConfig\<close> hands the text of that value to the
  \<open>Set\<close> method of the flag, and the flag holds what \<open>Set\<close> makes of the text: \<open>log_dir\<close>
  holds the text itself; \<open>alsologtostderr\<close> is true when the text is one of \<open>1\<close>, \<open>t\<close>, \<open>T\<close>,
  \<open>TRUE\<close>, \<open>true\<close>, \<open>True\<close>, and false for every other text; \<open>v\<close>, when the text is a decimal
  integer (with an optional sign) that fits 64 bits, holds that integer reduced to 32 bits
  in two's complement -- the integer itself when it lies between \<open>-2^31\<close> and \<open>2^31 - 1\<close> --
  and keeps its previous value for every other text. If the config file has no value for
  the name, \<open>Set\<close> gets the default text of the flag, and the flag holds its compiled-in
  default. In both cases the flag is marked as changed.
\<close>

theorem config_fallback_and_default:
  assumes "initConfig Minipath (Json kvs) st = Inr st1"
    and "name \<in> set viperWhiteList"
    and "Lookup (CommandLine st) name = Some a"
    and "\<not> Changed a"
    and "override (viper st) (ToLower name) = None"
    and "pflags (viper st) (ToLower name) = None"
    and "Getenv st (spec_env_name name) = []"
  shows "\<exists>a1. Lookup (CommandLine st1) name = Some a1 \<and> Changed a1 \<and>
          (case map_of (map (\<lambda>(k, x). (ToLower k, x)) kvs) (ToLower name) of
             Some c \<Rightarrow>
               Value a1 = snd (Value_Set (Value a) (ToString (Some c))) \<and>
               (\<forall>w. same_kind w (Value a) \<and> ToString (Some c) = Value_String w \<longrightarrow> Value a1 = w) \<and>
               (case Value a of
                  stringValue old \<Rightarrow> Value a1 = stringValue (ToString (Some c))
                | boolValue old \<Rightarrow>
                    Value a1 =
                      boolValue (ToString (Some c) \<in>
                                   set [''1'', ''t'', ''T'', ''TRUE'', ''true'', ''True''])
                | Level old \<Rightarrow>
                    (case Atoi (ToString (Some c)) of
                       Inl e \<Rightarrow> Value a1 = Level old
                     | Inr n \<Rightarrow>
                         Value a1 = Level (word_of_int n) \<and>
                         sint (word_of_int n :: 32 word) = (n + 2 ^ 31) mod 2 ^ 32 - 2 ^ 31 \<and>
                         (- (2 ^ 31) \<le> n \<and> n < 2 ^ 31 \<longrightarrow>
                            sint (word_of_int n :: 32 word) = n)))
           | None \<Rightarrow>
               Value a1 = snd (Value_Set (Value a) (DefValue a)) \<and>
               (\<forall>d. same_kind d (Value a) \<and> DefValue a = Value_String d \<longrightarrow> Value a1 = d))"
proof -
  let ?c = "map_of (map (\<lambda>(k, x). (ToLower k, x)) kvs) (ToLower name)"
  have cfg: "config (snd (ReadInConfig (viper st) (Json kvs))) =
        map_of (map (\<lambda>(k, x). (ToLower k, x)) kvs)"
    by (simp add: ReadInConfig_def)
  show ?thesis
  proof (cases ?c)
    case None
    with initConfig_flag[OF assms] cfg show ?thesis
      by (simp add: Value_Set_same_kind)
  next
    case (Some c)
    define a1 where
      "a1 = a\<lparr>Value := snd (Value_Set (Value a) (ToString (Some c))), Changed := True\<rparr>"
    have v1: "Value a1 = snd (Value_Set (Value a) (ToString (Some c)))" and c1: "Changed a1"
      by (simp_all add: a1_def)
    from Some initConfig_flag[OF assms] cfg
    have l: "Lookup (CommandLine st1) name = Some a1"
      by (simp add: a1_def)
    have kind: "\<forall>w. same_kind w (Value a) \<and> ToString (Some c) = Value_String w \<longrightarrow>
                 Value a1 = w"
      unfolding v1 by (simp add: Value_Set_same_kind)
    have expl: "case Value a of
                  stringValue old \<Rightarrow> Value a1 = stringValue (ToString (Some c))
                | boolValue old \<Rightarrow>
                    Value a1 =
                      boolValue (ToString (Some c) \<in>
                                   set [''1'', ''t'', ''T'', ''TRUE'', ''true'', ''True''])
                | Level old \<Rightarrow>
                    (case Atoi (ToString (Some c)) of
                       Inl e \<Rightarrow> Value a1 = Level old
                     | Inr n \<Rightarrow>
                         Value a1 = Level (word_of_int n) \<and>
                         sint (word_of_int n :: 32 word) = (n + 2 ^ 31) mod 2 ^ 32 - 2 ^ 31 \<and>
                         (- (2 ^ 31) \<le> n \<and> n < 2 ^ 31 \<longrightarrow>
                            sint (word_of_int n :: 32 word) = n))"
    proof (cases "Value a")
      case (boolValue b)
      with Value_Set_explicit[of "Value a" "ToString (Some c)"] show ?thesis
        unfolding v1 by simp
    next
      case (stringValue x)
      with Value_Set_explicit[of "Value a" "ToString (Some c)"] show ?thesis
        unfolding v1 by simp
    next
      case (Level old)
      show ?thesis
      proof (cases "Atoi (ToString (Some c))")
        case (Inl e)
        with Level Value_Set_explicit[of "Value a" "ToString (Some c)"] show ?thesis
          unfolding v1 by simp
      next
        case (Inr n)
        have "Value a1 = Level (word_of_int n)"
          unfolding v1 using Level Inr Value_Set_explicit[of "Value a" "ToString (Some c)"]
          by simp
        moreover have "- (2 ^ 31) \<le> n \<and> n < 2 ^ 31 \<longrightarrow> sint (word_of_int n :: 32 word) = n"
          using Level_in_range[of n] by blast
        ultimately have "Value a1 = Level (word_of_int n) \<and>
             sint (word_of_int n :: 32 word) = (n + 2 ^ 31) mod 2 ^ 32 - 2 ^ 31 \<and>
             (- (2 ^ 31) \<le> n \<and> n < 2 ^ 31 \<longrightarrow> sint (word_of_int n :: 32 word) = n)"
          using Level_wraps[of n] by (intro conjI)
        then show ?thesis
          unfolding Level Inr Value.case sum.case .
      qed
    qed
    show ?thesis
      unfolding Some option.case
    proof (intro exI conjI)
      show "Lookup (CommandLine st1) name = Some a1" by (rule l)
      show "Changed a1" by (rule c1)
      show "Value a1 = snd (Value_Set (Value a) (ToString (Some c)))" by (rule v1)
      show "\<forall>w. same_kind w (Value a) \<and> ToString (Some c) = Value_String w \<longrightarrow> Value a1 = w"
        by (rule kind)
      show "case Value a of
                  stringValue old \<Rightarrow> Value a1 = stringValue (ToString (Some c))
                | boolValue old \<Rightarrow>
                    Value a1 =
                      boolValue (ToString (Some c) \<in>
                                   set [''1'', ''t'', ''T'', ''TRUE'', ''true'', ''True''])
                | Level old \<Rightarrow>
                    (case Atoi (ToString (Some c)) of
                       Inl e \<Rightarrow> Value a1 = Level old
                     | Inr n \<Rightarrow>
                         Value a1 = Level (word_of_int n) \<and>
                         sint (word_of_int n :: 32 word) = (n + 2 ^ 31) mod 2 ^ 32 - 2 ^ 31 \<and>
                         (- (2 ^ 31) \<le> n \<and> n < 2 ^ 31 \<longrightarrow>
                            sint (word_of_int n :: 32 word) = n))"
        by (rule expl)
    qed
  qed
qed


theorem config_fallback_and_default_witness:
  "(\<exists>st1 a1 a2 a3.
      initConfig [''home'', ''.minikube'']
        (Json [(''V'', VNumber 4294967299), (''log_dir'', VString ''/tmp/l'')])
        (started [''home'', ''.minikube''] (\<lambda>k. []) []) = Inr st1 \<and>
      Lookup (CommandLine st1) ''v'' = Some a1 \<and> Changed a1 \<and> Value a1 = Level 3 \<and>
      Lookup (CommandLine st1) ''alsologtostderr'' = Some a2 \<and> Changed a2 \<and>
      Value a2 = boolValue False \<and>
      Lookup (CommandLine st1) ''log_dir'' = Some a3 \<and> Changed a3 \<and>
      Value a3 = stringValue ''/tmp/l'') \<and>
   (\<exists>st1 a1 a2.
      initConfig [''home'', ''.minikube'']
        (Json [(''v'', VString ''+5''), (''alsologtostderr'', VNumber 1)])
        (started [''home'', ''.minikube''] (\<lambda>k. []) []) = Inr st1 \<and>
      Lookup (CommandLine st1) ''v'' = Some a1 \<and> Changed a1 \<and> Value a1 = Level 5 \<and>
      Lookup (CommandLine st1) ''alsologtostderr'' = Some a2 \<and> Changed a2 \<and>
      Value a2 = boolValue True)"
proof -
  let ?mp = "[''home'', ''.minikube'']"
  let ?st = "started ?mp (\<lambda>k. []) []"
  let ?kvs = "[(''V'', VNumber 4294967299), (''log_dir'', VString ''/tmp/l'')]"
  let ?kvs2 = "[(''v'', VString ''+5''), (''alsologtostderr'', VNumber 1)]"
  obtain st1 where run: "initConfig ?mp (Json ?kvs) ?st = Inr st1"
    using initConfig_returns[OF started_registered] by blast
  obtain st2 where run2: "initConfig ?mp (Json ?kvs2) ?st = Inr st2"
    using initConfig_returns[OF started_registered] by blast
  have w1: "''v'' \<in> set viperWhiteList" and w2: "''alsologtostderr'' \<in> set viperWhiteList"
    and w3: "''log_dir'' \<in> set viperWhiteList"
    by (simp_all add: viperWhiteList_def)
  have f1: "Lookup (CommandLine ?st) ''v'' =
            Some \<lparr>Name = ''v'', DefValue = ''0'', Value = Level 0, Changed = False\<rparr>"
    and f2: "Lookup (CommandLine ?st) ''alsologtostderr'' =
            Some \<lparr>Name = ''alsologtostderr'', DefValue = ''false'', Value = boolValue False,
                  Changed = False\<rparr>"
    and f3: "Lookup (CommandLine ?st) ''log_dir'' =
            Some \<lparr>Name = ''log_dir'', DefValue = [],
                  Value = stringValue (path_string (MakeMiniPath ?mp [''logs''])),
                  Changed = False\<rparr>"
    by (simp_all add: started_eq)
  have e1: "Getenv ?st (spec_env_name ''v'') = []"
    and e2: "Getenv ?st (spec_env_name ''alsologtostderr'') = []"
    and e3: "Getenv ?st (spec_env_name ''log_dir'') = []"
    by (simp_all add: started_fields)
  have low: "ToLower ''V'' = ''v''"
    by code_simp
  have s1: "Atoi (FormatInt 4294967299) = Inr 4294967299"
    and s2: "ParseBool ''false'' = Inr False"
    and s3: "Atoi ''+5'' = Inr 5"
    and s4: "FormatInt 1 = ''1''"
    and s5: "ParseBool ''1'' = Inr True"
    by code_simp+
  have wrap: "(word_of_int 4294967299 :: 32 word) = 3"
    by simp
  from config_fallback_and_default[OF run w1 f1 _ _ whitelist_not_bound[OF w1] e1]
  obtain a1 where a1: "Lookup (CommandLine st1) ''v'' = Some a1" "Changed a1" "Value a1 = Level 3"
    by (auto simp: started_fields lower_names low s1 wrap)
  from config_fallback_and_default[OF run w2 f2 _ _ whitelist_not_bound[OF w2] e2]
  obtain a2 where a2: "Lookup (CommandLine st1) ''alsologtostderr'' = Some a2" "Changed a2"
    "Value a2 = boolValue False"
    by (auto simp: started_fields lower_names low s2)
  from config_fallback_and_default[OF run w3 f3 _ _ whitelist_not_bound[OF w3] e3]
  obtain a3 where a3: "Lookup (CommandLine st1) ''log_dir'' = Some a3" "Changed a3"
    "Value a3 = stringValue ''/tmp/l''"
    by (auto simp: started_fields lower_names low)
  from config_fallback_and_default[OF run2 w1 f1 _ _ whitelist_not_bound[OF w1] e1]
  obtain b1 where b1: "Lookup (CommandLine st2) ''v'' = Some b1" "Changed b1" "Value b1 = Level 5"
    by (auto simp: started_fields lower_names s3)
  from config_fallback_and_default[OF run2 w2 f2 _ _ whitelist_not_bound[OF w2] e2]
  obtain b2 where b2: "Lookup (CommandLine st2) ''alsologtostderr'' = Some b2" "Changed b2"
    "Value b2 = boolValue True"
    by (auto simp: started_fields lower_names s4 s5)
  from run a1 a2 a3 run2 b1 b2 show ?thesis by blast
qed

lemma initConfig_Get:
  assumes run: "initConfig Minipath content st = Inr st1"
    and other: "ToLower key \<notin> ToLower ` set viperWhiteList"
    and no_set: "override (viper st) (ToLower key) = None"
    and unbound: "pflags (viper st) (ToLower key) = None"
    and no_env: "Getenv st (spec_env_name key) = []"
  shows "Get (viper st1) (PersistentFlags st1) (Getenv st1) key =
     (case config (snd (ReadInConfig (viper st) content)) (ToLower key) of
        Some x \<Rightarrow> Some x
      | None \<Rightarrow>
          ((defaults (viper st))
             (ToLower WantUpdateNotification \<mapsto> VBool True,
              ToLower ReminderWaitPeriodInHours \<mapsto> VNumber 24,
              ToLower WantReportError \<mapsto> VBool False,
              ToLower WantReportErrorPrompt \<mapsto> VBool True,
              ToLower WantKubectlDownloadMsg \<mapsto> VBool True)) (ToLower key))"
proof -
  define pre where "pre =
    st\<lparr>viper := snd (ReadInConfig (viper st) content),
       trace := trace st @
         (case fst (ReadInConfig (viper st) content) of
            None \<Rightarrow> []
          | Some e \<Rightarrow>
              [Warningf ''Error reading config file at %s: %s''
                 [path_string (ConfigFile Minipath), config_error_Error e]])\<rparr>"
  have su: "setupViper pre = Inr st1"
    using run unfolding initConfig_unfold pre_def .
  note loop = su[unfolded setupViper_unfold setFlagsUsingViper_def]
  have rd: "override (snd (ReadInConfig (viper st) content)) = override (viper st)"
    "pflags (snd (ReadInConfig (viper st) content)) = pflags (viper st)"
    "defaults (snd (ReadInConfig (viper st) content)) = defaults (viper st)"
    by (simp_all add: ReadInConfig_def split: config_file.splits)
  have key: "envKey (viper st1) (mergeWithEnvPrefix (viper st1) (ToLower key)) = spec_env_name key"
    using setupViper_frame(1,2)[OF su] by (rule envKey_after_setup)
  have "find_viper (viper st1) (PersistentFlags st1) (Getenv st1) (ToLower key) =
        (case config (viper st1) (ToLower key) of
           Some x \<Rightarrow> Some x
         | None \<Rightarrow> defaults (viper st1) (ToLower key))"
  proof (rule find_viper_lower_layers)
    show "override (viper st1) (ToLower key) = None"
      using loop_layers_other[OF loop other] no_set by (simp add: pre_def rd)
    show "pflags (viper st1) (ToLower key) = None"
      using setupViper_frame(4)[OF su] unbound by (simp add: pre_def rd)
    show "automaticEnvApplied (viper st1) \<longrightarrow>
          Getenv st1 (envKey (viper st1) (mergeWithEnvPrefix (viper st1) (ToLower key))) = []"
      unfolding key using setupViper_frame(7)[OF su] no_env by (simp add: pre_def)
  qed
  moreover have "config (viper st1) = config (snd (ReadInConfig (viper st) content))"
    using setupViper_frame(5)[OF su] by (simp add: pre_def)
  moreover have "defaults (viper st1) (ToLower key) =
     ((defaults (viper st))
             (ToLower WantUpdateNotification \<mapsto> VBool True,
              ToLower ReminderWaitPeriodInHours \<mapsto> VNumber 24,
              ToLower WantReportError \<mapsto> VBool False,
              ToLower WantReportErrorPrompt \<mapsto> VBool True,
              ToLower WantKubectlDownloadMsg \<mapsto> VBool True)) (ToLower key)"
    using loop_layers_other[OF loop other] by (simp add: pre_def rd)
  ultimately show ?thesis
    by (simp add: Get_def cong: option.case_cong)
qed

lemma initConfig_trace:
  assumes "initConfig Minipath content st = Inr st1"
  shows "trace st1 = trace st @
     (case fst (ReadInConfig (viper st) content) of
        None \<Rightarrow> []
      | Some e \<Rightarrow>
          [Warningf ''Error reading config file at %s: %s''
             [path_string (ConfigFile Minipath), config_error_Error e]])"
    and "config (viper st1) = config (snd (ReadInConfig (viper st) content))"
  using setupViper_frame(5,8)[OF assms[unfolded initConfig_unfold]] by simp_all

lemma config_keys_not_whitelisted:
  "ToLower WantUpdateNotification \<notin> ToLower ` set viperWhiteList"
  "ToLower ReminderWaitPeriodInHours \<notin> ToLower ` set viperWhiteList"
  "ToLower WantReportError \<notin> ToLower ` set viperWhiteList"
  "ToLower WantReportErrorPrompt \<notin> ToLower ` set viperWhiteList"
  "ToLower WantKubectlDownloadMsg \<notin> ToLower ` set viperWhiteList"
  by (simp_all add: viperWhiteList_def lower_names)

lemma path_string_logs: "path_string (MakeMiniPath Minipath [''logs'']) \<noteq> []"
  by (simp add: path_string_def MakeMiniPath_def)

text \<open>
  C6. When the config file cannot be read or is no JSON, and the whitelisted flags are
  registered, \<open>initConfig\<close> returns (nothing ends the process): it has logged one warning,
  the config-file layer is empty, each of the five configuration keys of \<open>setupViper\<close>
  resolves to its compiled default, and each whitelisted flag that was not supplied
  resolves to its default text and so to its default value -- all this where no call of
  \<open>Set\<close>, no bound flag and no environment variable overrides the key.
\<close>

theorem unreadable_config_degrades:
  assumes "content = Unreadable \<or> content = Malformed"
    and "\<forall>n\<in>set viperWhiteList. Lookup (CommandLine st) n \<noteq> None"
    and "config (viper st) = Map.empty"
  shows "\<exists>st1 e.
     initConfig Minipath content st = Inr st1 \<and>
     trace st1 = trace st @
       [Warningf ''Error reading config file at %s: %s'' [path_string (ConfigFile Minipath), e]] \<and>
     config (viper st1) = Map.empty \<and>
     (\<forall>(key, d)\<in>set [(WantUpdateNotification, VBool True),
                      (ReminderWaitPeriodInHours, VNumber 24),
                      (WantReportError, VBool False),
                      (WantReportErrorPrompt, VBool True),
                      (WantKubectlDownloadMsg, VBool True)].
        override (viper st) (ToLower key) = None \<and> pflags (viper st) (ToLower key) = None \<and>
        Getenv st (spec_env_name key) = [] \<longrightarrow>
        Get (viper st1) (PersistentFlags st1) (Getenv st1) key = Some d) \<and>
     (\<forall>name\<in>set viperWhiteList. \<forall>a.
        Lookup (CommandLine st) name = Some a \<and> \<not> Changed a \<and>
        override (viper st) (ToLower name) = None \<and> pflags (viper st) (ToLower name) = None \<and>
        Getenv st (spec_env_name name) = [] \<longrightarrow>
        (\<exists>a1. Lookup (CommandLine st1) name = Some a1 \<and>
              Value a1 = snd (Value_Set (Value a) (DefValue a)) \<and>
              (\<forall>d. same_kind d (Value a) \<and> DefValue a = Value_String d \<longrightarrow> Value a1 = d)))"
proof -
  obtain st1 where run: "initConfig Minipath content st = Inr st1"
    using initConfig_returns[OF assms(2)] by blast
  from assms(1,3) have empty: "config (snd (ReadInConfig (viper st) content)) = Map.empty"
    by (auto simp: ReadInConfig_def)
  from assms(1) obtain e where e: "fst (ReadInConfig (viper st) content) = Some e"
    by (auto simp: ReadInConfig_def)
  have tr: "trace st1 = trace st @
       [Warningf ''Error reading config file at %s: %s''
          [path_string (ConfigFile Minipath), config_error_Error e]]"
    using initConfig_trace(1)[OF run] e by simp
  have cf: "config (viper st1) = Map.empty"
    using initConfig_trace(2)[OF run] empty by simp
  have keys: "\<forall>(key, d)\<in>set [(WantUpdateNotification, VBool True),
                      (ReminderWaitPeriodInHours, VNumber 24),
                      (WantReportError, VBool False),
                      (WantReportErrorPrompt, VBool True),
                      (WantKubectlDownloadMsg, VBool True)].
        override (viper st) (ToLower key) = None \<and> pflags (viper st) (ToLower key) = None \<and>
        Getenv st (spec_env_name key) = [] \<longrightarrow>
        Get (viper st1) (PersistentFlags st1) (Getenv st1) key = Some d"
    using initConfig_Get[OF run config_keys_not_whitelisted(1)]
      initConfig_Get[OF run config_keys_not_whitelisted(2)]
      initConfig_Get[OF run config_keys_not_whitelisted(3)]
      initConfig_Get[OF run config_keys_not_whitelisted(4)]
      initConfig_Get[OF run config_keys_not_whitelisted(5)]
    by (simp add: empty lower_names)
  have flags: "\<forall>name\<in>set viperWhiteList. \<forall>a.
        Lookup (CommandLine st) name = Some a \<and> \<not> Changed a \<and>
        override (viper st) (ToLower name) = None \<and> pflags (viper st) (ToLower name) = None \<and>
        Getenv st (spec_env_name name) = [] \<longrightarrow>
        (\<exists>a1. Lookup (CommandLine st1) name = Some a1 \<and>
              Value a1 = snd (Value_Set (Value a) (DefValue a)) \<and>
              (\<forall>d. same_kind d (Value a) \<and> DefValue a = Value_String d \<longrightarrow> Value a1 = d))"
  proof (intro ballI allI impI)
    fix name a
    assume n: "name \<in> set viperWhiteList"
      and h: "Lookup (CommandLine st) name = Some a \<and> \<not> Changed a \<and>
        override (viper st) (ToLower name) = None \<and> pflags (viper st) (ToLower name) = None \<and>
        Getenv st (spec_env_name name) = []"
    from initConfig_flag[OF run n, of a] h empty
    show "\<exists>a1. Lookup (CommandLine st1) name = Some a1 \<and>
              Value a1 = snd (Value_Set (Value a) (DefValue a)) \<and>
              (\<forall>d. same_kind d (Value a) \<and> DefValue a = Value_String d \<longrightarrow> Value a1 = d)"
      by (auto simp: Value_Set_same_kind)
  qed
  from run tr cf keys flags show ?thesis by blast
qed

theorem unreadable_config_degrades_witness:
  "\<exists>st1.
     initConfig [''home'', ''.minikube''] Malformed (started [''home'', ''.minikube''] (\<lambda>k. []) []) =
       Inr st1 \<and>
     trace st1 =
       [Warningf ''Error reading config file at %s: %s''
          [''/home/.minikube/config/config.json'', ''While parsing config: invalid character'']] \<and>
     config (viper st1) = Map.empty \<and>
     Get (viper st1) (PersistentFlags st1) (Getenv st1) WantUpdateNotification = Some (VBool True) \<and>
     Get (viper st1) (PersistentFlags st1) (Getenv st1) ReminderWaitPeriodInHours = Some (VNumber 24) \<and>
     Get (viper st1) (PersistentFlags st1) (Getenv st1) WantReportError = Some (VBool False) \<and>
     (\<exists>a1. Lookup (CommandLine st1) ''v'' = Some a1 \<and> Value a1 = Level 0)"
proof -
  let ?mp = "[''home'', ''.minikube'']"
  let ?st = "started ?mp (\<lambda>k. []) []"
  have p: "path_string (ConfigFile ?mp) = ''/home/.minikube/config/config.json''"
    by code_simp
  have s: "Atoi ''0'' = Inr 0"
    by code_simp
  from unreadable_config_degrades[of Malformed ?st ?mp, OF _ started_registered]
  obtain st1 e where r: "initConfig ?mp Malformed ?st = Inr st1"
    and t: "trace st1 = trace ?st @
       [Warningf ''Error reading config file at %s: %s'' [path_string (ConfigFile ?mp), e]]"
    and c: "config (viper st1) = Map.empty"
    and k: "\<forall>(key, d)\<in>set [(WantUpdateNotification, VBool True),
                      (ReminderWaitPeriodInHours, VNumber 24),
                      (WantReportError, VBool False),
                      (WantReportErrorPrompt, VBool True),
                      (WantKubectlDownloadMsg, VBool True)].
        override (viper ?st) (ToLower key) = None \<and> pflags (viper ?st) (ToLower key) = None \<and>
        Getenv ?st (spec_env_name key) = [] \<longrightarrow>
        Get (viper st1) (PersistentFlags st1) (Getenv st1) key = Some d"
    and f: "\<forall>name\<in>set viperWhiteList. \<forall>a.
        Lookup (CommandLine ?st) name = Some a \<and> \<not> Changed a \<and>
        override (viper ?st) (ToLower name) = None \<and> pflags (viper ?st) (ToLower name) = None \<and>
        Getenv ?st (spec_env_name name) = [] \<longrightarrow>
        (\<exists>a1. Lookup (CommandLine st1) name = Some a1 \<and>
              Value a1 = snd (Value_Set (Value a) (DefValue a)) \<and>
              (\<forall>d. same_kind d (Value a) \<and> DefValue a = Value_String d \<longrightarrow> Value a1 = d))"
    by (auto simp: started_fields)
  from initConfig_trace(1)[OF r] have t': "trace st1 =
       [Warningf ''Error reading config file at %s: %s''
          [''/home/.minikube/config/config.json'', ''While parsing config: invalid character'']]"
    by (simp add: ReadInConfig_def started_fields p)
  from k have g: "Get (viper st1) (PersistentFlags st1) (Getenv st1) WantUpdateNotification = Some (VBool True)"
    "Get (viper st1) (PersistentFlags st1) (Getenv st1) ReminderWaitPeriodInHours = Some (VNumber 24)"
    "Get (viper st1) (PersistentFlags st1) (Getenv st1) WantReportError = Some (VBool False)"
    by (simp_all add: started_fields lower_names)
  have wv: "''v'' \<in> set viperWhiteList" by (simp add: viperWhiteList_def)
  have fv: "Lookup (CommandLine ?st) ''v'' =
            Some \<lparr>Name = ''v'', DefValue = ''0'', Value = Level 0, Changed = False\<rparr>"
    by (simp add: started_eq)
  from f[rule_format, OF wv,
      of "\<lparr>Name = ''v'', DefValue = ''0'', Value = Level 0, Changed = False\<rparr>"] fv
  have "\<exists>a1. Lookup (CommandLine st1) ''v'' = Some a1 \<and> Value a1 = Level 0"
    by (auto simp: started_fields lower_names s)
  with r t' c g show ?thesis by blast
qed

text \<open>
  C10. \<open>init\<close> finds \<open>log_dir\<close> unchanged and sets its value to the logs directory of
  minikube, leaving the marker \<open>Changed\<close> false and the default text empty. If parsing the
  command line then leaves the flag as it is (it was not supplied), and neither the
  environment nor the config file has a value for \<open>log_dir\<close>, the resolution in \<open>initConfig\<close>
  writes the default text back: \<open>log_dir\<close> ends as the empty string, the default of the
  logging library, and not as the logs directory.
\<close>

theorem log_dir_reset_to_library_default:
  assumes "Lookup (CommandLine st2) ''log_dir'' =
           Lookup (CommandLine (started Minipath env fs)) ''log_dir''"
    and "\<forall>n\<in>set viperWhiteList. Lookup (CommandLine st2) n \<noteq> None"
    and "viper st2 = viper (started Minipath env fs)"
    and "Getenv st2 (spec_env_name ''log_dir'') = []"
    and "config (snd (ReadInConfig (viper st2) content)) ''log_dir'' = None"
  shows "init Minipath glog_flags (initial env fs) = Inr (started Minipath env fs) \<and>
         Lookup (CommandLine (started Minipath env fs)) ''log_dir'' =
           Some \<lparr>Name = ''log_dir'', DefValue = [],
                 Value = stringValue (path_string (MakeMiniPath Minipath [''logs''])),
                 Changed = False\<rparr> \<and>
         path_string (MakeMiniPath Minipath [''logs'']) \<noteq> [] \<and>
         (\<exists>st3. initConfig Minipath content st2 = Inr st3 \<and>
                Lookup (CommandLine st3) ''log_dir'' =
                  Some \<lparr>Name = ''log_dir'', DefValue = [], Value = stringValue [],
                        Changed = True\<rparr>)"
proof -
  let ?a = "\<lparr>Name = ''log_dir'', DefValue = [],
             Value = stringValue (path_string (MakeMiniPath Minipath [''logs''])),
             Changed = False\<rparr>"
  have i: "init Minipath glog_flags (initial env fs) = Inr (started Minipath env fs)"
    by (simp add: started_def init_initial)
  have l: "Lookup (CommandLine (started Minipath env fs)) ''log_dir'' = Some ?a"
    by (simp add: started_eq)
  obtain st3 where run: "initConfig Minipath content st2 = Inr st3"
    using initConfig_returns[OF assms(2)] by blast
  have w: "''log_dir'' \<in> set viperWhiteList"
    by (simp add: viperWhiteList_def)
  have "Lookup (CommandLine st3) ''log_dir'' =
        Some (?a\<lparr>Value :=
               snd (Value_Set (Value ?a)
                      (case config (snd (ReadInConfig (viper st2) content)) (ToLower ''log_dir'') of
                         Some x \<Rightarrow> ToString (Some x)
                       | None \<Rightarrow> DefValue ?a)),
             Changed := True\<rparr>)"
  proof (rule initConfig_flag[OF run w])
    show "Lookup (CommandLine st2) ''log_dir'' = Some ?a"
      using assms(1) l by simp
    show "\<not> Changed ?a" by simp
    show "override (viper st2) (ToLower ''log_dir'') = None"
      by (simp add: assms(3) started_fields)
    show "pflags (viper st2) (ToLower ''log_dir'') = None"
      unfolding assms(3) by (rule whitelist_not_bound[OF w])
    show "Getenv st2 (spec_env_name ''log_dir'') = []"
      by (rule assms(4))
  qed
  with assms(5) have "Lookup (CommandLine st3) ''log_dir'' =
        Some \<lparr>Name = ''log_dir'', DefValue = [], Value = stringValue [], Changed = True\<rparr>"
    by (simp add: lower_names)
  with i l run path_string_logs show ?thesis
    by blast
qed

theorem log_dir_reset_to_library_default_witness:
  "Lookup (CommandLine (started [''home'', ''.minikube''] (\<lambda>k. []) [])) ''log_dir'' =
     Some \<lparr>Name = ''log_dir'', DefValue = [], Value = stringValue ''/home/.minikube/logs'',
           Changed = False\<rparr> \<and>
   (\<exists>st3. initConfig [''home'', ''.minikube''] (Json [(''v'', VNumber 2)])
            (started [''home'', ''.minikube''] (\<lambda>k. []) []) = Inr st3 \<and>
          Lookup (CommandLine st3) ''log_dir'' =
            Some \<lparr>Name = ''log_dir'', DefValue = [], Value = stringValue [], Changed = True\<rparr>)"
proof -
  let ?mp = "[''home'', ''.minikube'']"
  let ?st = "started ?mp (\<lambda>k. []) []"
  have p: "path_string (MakeMiniPath ?mp [''logs'']) = ''/home/.minikube/logs''"
    by code_simp
  have c: "config (snd (ReadInConfig (viper ?st) (Json [(''v'', VNumber 2)]))) ''log_dir'' = None"
    by (simp add: ReadInConfig_def lower_names)
  from log_dir_reset_to_library_default[OF refl started_registered refl _ c]
  show ?thesis
    by (simp add: started_fields p)
qed

end
